theory Spec2Isabelle
  imports Complex_Main
begin

section \<open>Real-number primitives used by the tracing code\<close>

text \<open>
  The tracing engine of \<^verbatim>\<open>src/simsoptpp/tracing.cpp\<close> computes on C++ \<^verbatim>\<open>double\<close>s.
  The embedding below works over exact real arithmetic: \<^verbatim>\<open>double\<close> is \<^typ>\<open>real\<close>, the
  arithmetic operators are the field operations, and the library functions
  \<^verbatim>\<open>std::atan2\<close>, \<^verbatim>\<open>std::round\<close> and \<^verbatim>\<open>std::floor\<close> are their mathematical definitions.
\<close>

definition atan2 :: "real \<Rightarrow> real \<Rightarrow> real" where
  \<comment> \<open>\<^verbatim>\<open>std::atan2(y, x)\<close>: the angle of the point \<open>(x, y)\<close> in \<open>(-\<pi>, \<pi>]\<close>; 0 at the origin.\<close>
  "atan2 y x =
     (if 0 < x then arctan (y / x)
      else if x < 0 then (if 0 \<le> y then arctan (y / x) + pi else arctan (y / x) - pi)
      else if 0 < y then pi / 2
      else if y < 0 then - (pi / 2)
      else 0)"

definition c_round :: "real \<Rightarrow> int" where
  \<comment> \<open>\<^verbatim>\<open>std::round\<close>: to the nearest integer, halfway cases away from zero.\<close>
  "c_round x = (if 0 \<le> x then \<lfloor>x + 1 / 2\<rfloor> else \<lceil>x - 1 / 2\<rceil>)"

section \<open>Phase unwrapping: \<^verbatim>\<open>get_phi\<close>\<close>

definition shifted_atan2 :: "real \<Rightarrow> real \<Rightarrow> real" where
  \<comment> \<open>The first three lines of \<^verbatim>\<open>get_phi\<close>: \<^verbatim>\<open>phi = atan2(y, x); if (phi < 0) phi += 2*M_PI;\<close>\<close>
  "shifted_atan2 x y = (let phi = atan2 y x in if phi < 0 then phi + 2 * pi else phi)"

definition get_phi :: "real \<Rightarrow> real \<Rightarrow> real \<Rightarrow> real" where
  \<comment> \<open>\<^verbatim>\<open>double get_phi(double x, double y, double phi_near)\<close>. The local
      \<^verbatim>\<open>phi_near_mod\<close> of the source is computed and never read; it is left out.\<close>
  "get_phi x y phi_near =
     (let phi = shifted_atan2 x y;
          nearest_multiple = real_of_int (c_round (phi_near / (2 * pi))) * 2 * pi;
          opt1 = nearest_multiple - 2 * pi + phi;
          opt2 = nearest_multiple + phi;
          opt3 = nearest_multiple + 2 * pi + phi;
          dist1 = \<bar>opt1 - phi_near\<bar>;
          dist2 = \<bar>opt2 - phi_near\<bar>;
          dist3 = \<bar>opt3 - phi_near\<bar>
      in if dist1 \<le> min dist2 dist3 then opt1
         else if dist2 \<le> min dist1 dist3 then opt2
         else opt3)"

section \<open>Errors, checked array access\<close>

datatype error =
    OutOfBounds            \<comment> \<open>a read past the end of a \<^verbatim>\<open>std::array\<close> or \<^verbatim>\<open>std::vector\<close>\<close>
  | LogicError string      \<comment> \<open>\<^verbatim>\<open>throw std::logic_error(msg)\<close>\<close>
  | AssertionFailed        \<comment> \<open>a failed \<^verbatim>\<open>assert\<close>\<close>
  | LibraryError string    \<comment> \<open>an exception of the ODE stepper, the root solver or the field\<close>

definition err_bind :: "error + 'a \<Rightarrow> ('a \<Rightarrow> error + 'b) \<Rightarrow> error + 'b" where
  \<comment> \<open>Sequencing: the first error ends the computation, as an exception does.\<close>
  "err_bind m f = (case m of Inl e \<Rightarrow> Inl e | Inr v \<Rightarrow> f v)"

definition rd :: "'a list \<Rightarrow> nat \<Rightarrow> error + 'a" where
  \<comment> \<open>\<^verbatim>\<open>a[i]\<close>. C++ does not check the index; the model makes a read past the end an error.\<close>
  "rd xs i = (if i < length xs then Inr (xs ! i) else Inl OutOfBounds)"

definition join :: "real list \<Rightarrow> real list \<Rightarrow> real list" where
  \<comment> \<open>\<^verbatim>\<open>join<m, n>(a, b)\<close>: the two arrays, one after the other.\<close>
  "join a b = a @ b"

section \<open>Coordinate charts\<close>

definition chart_s_theta :: "int \<Rightarrow> real list \<Rightarrow> error + real \<times> real" where
  \<comment> \<open>\<^verbatim>\<open>GuidingCenterVacuumBoozerRHS::operator()\<close>, the \<^verbatim>\<open>if (axis==1) ... else if (axis==2) ... else\<close>
      that recovers \<open>(s, \<theta>)\<close> from the state \<^verbatim>\<open>ys\<close>.\<close>
  "chart_s_theta ax ys =
     err_bind (rd ys 0) (\<lambda>ys0. err_bind (rd ys 1) (\<lambda>ys1.
       if ax = 1 then Inr (ys0\<^sup>2 + ys1\<^sup>2, atan2 ys1 ys0)
       else if ax = 2 then Inr (sqrt (ys0\<^sup>2 + ys1\<^sup>2), atan2 ys1 ys0)
       else Inr (ys0, ys1)))"

definition boozer_initial_state :: "int \<Rightarrow> real \<times> real \<times> real \<Rightarrow> real \<Rightarrow> real list" where
  \<comment> \<open>\<^verbatim>\<open>particle_guiding_center_boozer_tracing\<close>: the initial state \<^verbatim>\<open>y\<close> built from
      \<^verbatim>\<open>stz_init\<close> and \<^verbatim>\<open>vtang\<close> in the chart \<^verbatim>\<open>axis\<close>.\<close>
  "boozer_initial_state ax stz_init vtang =
     (case stz_init of (s, theta, zeta) \<Rightarrow>
        if ax = 1 then [sqrt s * cos theta, sqrt s * sin theta, zeta, vtang]
        else if ax = 2 then [s * cos theta, s * sin theta, zeta, vtang]
        else [s, theta, zeta, vtang])"

definition canon :: "int \<Rightarrow> real list \<Rightarrow> error + real list" where
  \<comment> \<open>The block of \<^verbatim>\<open>solve\<close> that fills \<^verbatim>\<open>ykeep\<close> from a state: \<^verbatim>\<open>ykeep = y;\<close> then, for
      \<^verbatim>\<open>rhs.axis\<close> 1 or 2, components 0 and 1 are overwritten by \<open>(s, \<theta>)\<close>. The source
      repeats this block five times.\<close>
  "canon ax y =
     (if ax = 1 then
        err_bind (rd y 0) (\<lambda>y0. err_bind (rd y 1) (\<lambda>y1.
          Inr (y[0 := y0\<^sup>2 + y1\<^sup>2, 1 := atan2 y1 y0])))
      else if ax = 2 then
        err_bind (rd y 0) (\<lambda>y0. err_bind (rd y 1) (\<lambda>y1.
          Inr (y[0 := sqrt (y0\<^sup>2 + y1\<^sup>2), 1 := atan2 y1 y0])))
      else Inr y)"

section \<open>Right-hand sides and the magnetic field\<close>

text \<open>
  The field evaluator is an external collaborator; it is a parameter of the model. After
  \<^verbatim>\<open>set_points_cyl\<close> (or \<^verbatim>\<open>set_points\<close>) at one point, \<^verbatim>\<open>B_ref()\<close>, \<^verbatim>\<open>AbsB_ref()\<close> and
  \<^verbatim>\<open>GradAbsB_ref()\<close> are functions of that point.
\<close>

record magnetic_field =
  B_at_cyl :: "real \<Rightarrow> real \<Rightarrow> real \<Rightarrow> real \<times> real \<times> real"
  AbsB_at_cyl :: "real \<Rightarrow> real \<Rightarrow> real \<Rightarrow> real"
  GradAbsB_at_cyl :: "real \<Rightarrow> real \<Rightarrow> real \<Rightarrow> real \<times> real \<times> real"
  AbsB_at_xyz :: "real \<Rightarrow> real \<Rightarrow> real \<Rightarrow> real"

record rhs =
  Size :: nat
  axis :: int
  rhs_eval :: "real list \<Rightarrow> real \<Rightarrow> error + real list"

definition FieldlineRHS :: "magnetic_field \<Rightarrow> rhs" where
  \<comment> \<open>\<^verbatim>\<open>class FieldlineRHS\<close>: \<^verbatim>\<open>Size = 3\<close>, \<^verbatim>\<open>axis = false\<close>, \<^verbatim>\<open>operator()\<close>.\<close>
  "FieldlineRHS field =
     \<lparr>Size = 3, axis = 0,
      rhs_eval = (\<lambda>ys t.
        err_bind (rd ys 0) (\<lambda>x. err_bind (rd ys 1) (\<lambda>y. err_bind (rd ys 2) (\<lambda>z.
          let r = sqrt (x * x + y * y);
              phi0 = atan2 y x;
              phi = (if phi0 < 0 then phi0 + 2 * pi else phi0)
          in case B_at_cyl field r phi z of (B0, B1, B2) \<Rightarrow> Inr [B0, B1, B2]))))\<rparr>"

definition GuidingCenterVacuumRHS :: "magnetic_field \<Rightarrow> real \<Rightarrow> real \<Rightarrow> real \<Rightarrow> rhs" where
  \<comment> \<open>\<^verbatim>\<open>class GuidingCenterVacuumRHS\<close>: \<^verbatim>\<open>Size = 4\<close>, \<^verbatim>\<open>axis = false\<close>, \<^verbatim>\<open>operator()\<close>.\<close>
  "GuidingCenterVacuumRHS field m q mu =
     \<lparr>Size = 4, axis = 0,
      rhs_eval = (\<lambda>ys t.
        err_bind (rd ys 0) (\<lambda>x. err_bind (rd ys 1) (\<lambda>y. err_bind (rd ys 2) (\<lambda>z.
        err_bind (rd ys 3) (\<lambda>v_par.
          let r = sqrt (x * x + y * y);
              phi0 = atan2 y x;
              phi = (if phi0 < 0 then phi0 + 2 * pi else phi0);
              AbsB = AbsB_at_cyl field r phi z
          in case (B_at_cyl field r phi z, GradAbsB_at_cyl field r phi z) of
               ((B0, B1, B2), (G0, G1, G2)) \<Rightarrow>
                 let BcrossGradAbsB0 = B1 * G2 - B2 * G1;
                     BcrossGradAbsB1 = B2 * G0 - B0 * G2;
                     BcrossGradAbsB2 = B0 * G1 - B1 * G0;
                     v_perp2 = 2 * mu * AbsB;
                     fak1 = v_par / AbsB;
                     fak2 = (m / (q * AbsB ^ 3)) * (0.5 * v_perp2 + v_par * v_par)
                 in Inr [fak1 * B0 + fak2 * BcrossGradAbsB0,
                         fak1 * B1 + fak2 * BcrossGradAbsB1,
                         fak1 * B2 + fak2 * BcrossGradAbsB2,
                         - mu * (B0 * G0 + B1 * G1 + B2 * G2) / AbsB])))))\<rparr>"

section \<open>The external libraries \<^verbatim>\<open>solve\<close> calls\<close>

text \<open>
  \<^verbatim>\<open>solve\<close> drives Boost.Odeint's dense-output Dormand-Prince stepper and refines event
  times with Boost.Math's \<^verbatim>\<open>toms748_solve\<close>. Neither is code of the repository; both are
  parameters of the model, a record of functions over a stepper state \<^typ>\<open>'d\<close>.
  \<^verbatim>\<open>do_step\<close> returns the new stepper and the pair \<^verbatim>\<open>(t_old, t_new)\<close> of the accepted step.
  The root function handed to the root solver reads an array, so it can fail.
  \<^verbatim>\<open>toms748_solve\<close> takes its last argument \<^verbatim>\<open>max_iter\<close> by reference: it reads the cap on
  its work there and stores the count of the work it did in its place. The model returns
  that count next to the bracket.
\<close>

record 'd odeint =
  make_dense_output :: "real \<Rightarrow> real \<Rightarrow> real \<Rightarrow> 'd"
  initialize :: "'d \<Rightarrow> real list \<Rightarrow> real \<Rightarrow> real \<Rightarrow> 'd"
  do_step :: "'d \<Rightarrow> rhs \<Rightarrow> error + 'd \<times> real \<times> real"
  current_time :: "'d \<Rightarrow> real"
  current_state :: "'d \<Rightarrow> real list"
  calc_state :: "'d \<Rightarrow> real \<Rightarrow> real list"
  toms748_solve :: "(real \<Rightarrow> error + real) \<Rightarrow> real \<Rightarrow> real \<Rightarrow> real \<Rightarrow> real \<Rightarrow> int \<Rightarrow> nat
                    \<Rightarrow> error + (real \<times> real) \<times> nat"

type_synonym StoppingCriterion = "int \<Rightarrow> real \<Rightarrow> real \<Rightarrow> real \<Rightarrow> real \<Rightarrow> real \<Rightarrow> real \<Rightarrow> bool"
  \<comment> \<open>\<^verbatim>\<open>operator()(iter, dt, t, x, y, z, vpar)\<close>; a \<^verbatim>\<open>shared_ptr\<close> to one is an option, \<open>None\<close>
      the null pointer.\<close>

section \<open>The state of \<^verbatim>\<open>solve\<close>\<close>

text \<open>
  The arguments of \<^verbatim>\<open>solve\<close> that its loop only reads, and its local variables. Field
  \<open>arg_x\<close> is the C++ argument \<^verbatim>\<open>x\<close>, field \<open>v_x\<close> the C++ local \<^verbatim>\<open>x\<close>. The locals
  \<^verbatim>\<open>tlast\<close> and \<^verbatim>\<open>tcurrent\<close> (the bracket of the step just taken) are not the locals
  \<^verbatim>\<open>t_last\<close> and \<^verbatim>\<open>t_current\<close> (the times used for the moving \<open>\<Phi>\<close>-planes).
\<close>

record solve_args =
  arg_tmax :: real
  arg_abstol :: real
  arg_phis :: "real list"
  arg_omegas :: "real list"
  arg_stopping_criteria :: "StoppingCriterion option list"
  arg_vpars :: "real list"
  arg_phis_stop :: bool
  arg_vpars_stop :: bool
  arg_flux :: bool
  arg_forget_exact_path :: bool

record 'd solve_vars =
  v_res :: "real list list"
  v_res_phi_hits :: "real list list"
  v_dense :: 'd
  v_t :: real
  v_y :: "real list"
  v_dt :: real
  v_iter :: int
  v_stop :: bool
  v_phi_last :: real
  v_vpar_last :: real
  v_t_last :: real
  v_phi_current :: real
  v_vpar_current :: real
  v_t_current :: real
  v_rootmaxit :: nat

text \<open>
  \<^verbatim>\<open>double phi_current, vpar_current, t_current;\<close> declares three locals without an
  initialiser. Their first contents are whatever the stack holds; the model takes them as
  an explicit input.

  The counter \<^verbatim>\<open>iter\<close> is a C++ \<^verbatim>\<open>int\<close>; the model counts in \<^typ>\<open>int\<close> without the
  wrap-around, which no property below depends on. The \<^verbatim>\<open>assert\<close> of the \<open>\<Phi>\<close>-plane loop
  is modelled as active: a violated assertion ends the trace with an error.

  \<^verbatim>\<open>uintmax_t rootmaxit = 200;\<close> is declared once, before the loop, and handed to every
  call of \<^verbatim>\<open>toms748_solve\<close>, which overwrites it: a later call is capped by the count the
  call before it stored there.
\<close>

record indeterminate =
  ind_phi_current :: real
  ind_vpar_current :: real
  ind_t_current :: real

definition c_trunc :: "real \<Rightarrow> int" where
  \<comment> \<open>\<^verbatim>\<open>int(x)\<close>: conversion of a double to an integer, towards zero.\<close>
  "c_trunc x = (if 0 \<le> x then \<lfloor>x\<rfloor> else \<lceil>x\<rceil>)"

definition roottol :: "real \<Rightarrow> int" where
  \<comment> \<open>The bit count of \<^verbatim>\<open>eps_tolerance<double> roottol(-int(std::log2(abstol)))\<close>.\<close>
  "roottol atol = - c_trunc (log 2 atol)"

definition sign3 :: "real \<Rightarrow> int" where
  \<comment> \<open>\<^verbatim>\<open>(d > 0) ? 1 : ((d < 0) ? -1 : 0)\<close>\<close>
  "sign3 d = (if d > 0 then 1 else if d < 0 then -1 else 0)"

definition vpar_crossed :: "real \<Rightarrow> real \<Rightarrow> real \<Rightarrow> bool" where
  \<comment> \<open>The condition of the \<^verbatim>\<open>if\<close> in the \<^verbatim>\<open>vpars\<close> loop: both differences are non-zero
      and their signs differ.\<close>
  "vpar_crossed vpar_last vpar_current vpar \<longleftrightarrow>
     vpar_last - vpar \<noteq> 0 \<and> vpar_current - vpar \<noteq> 0
       \<and> sign3 (vpar_last - vpar) \<noteq> sign3 (vpar_current - vpar)"

section \<open>Event refinement\<close>

definition refine_root ::
  "'d odeint \<Rightarrow> 'd \<Rightarrow> int \<Rightarrow> real \<Rightarrow> nat \<Rightarrow> (real \<Rightarrow> error + real) \<Rightarrow> real \<Rightarrow> real \<Rightarrow> real \<Rightarrow> real
     \<Rightarrow> error + real \<times> real list \<times> nat" where
  \<comment> \<open>The lines the two event scans share, from \<^verbatim>\<open>auto root = toms748_solve(...)\<close> to the
      filling of \<^verbatim>\<open>ykeep\<close>: the root bracket, the choice of \<^verbatim>\<open>troot\<close>, the dense state there.
      The argument \<open>rootmaxit\<close> is the content of the variable \<^verbatim>\<open>rootmaxit\<close> before the call,
      the third component of the result its content after the call.\<close>
  "refine_root L d ax atol rootmaxit rootfun tlast tcurrent fa fb =
     err_bind (toms748_solve L rootfun tlast tcurrent fa fb (roottol atol) rootmaxit)
       (\<lambda>(root, rootmaxit').
     err_bind (rootfun (fst root)) (\<lambda>f0.
     err_bind (rootfun (snd root)) (\<lambda>f1.
       let troot = (if \<bar>f0\<bar> < \<bar>f1\<bar> then fst root else snd root)
       in err_bind (canon ax (calc_state L d troot)) (\<lambda>ykeep. Inr (troot, ykeep, rootmaxit')))))"

section \<open>The three scans of a completed step\<close>

fun vpar_loop ::
  "'d odeint \<Rightarrow> solve_args \<Rightarrow> int \<Rightarrow> real \<Rightarrow> real \<Rightarrow> nat \<Rightarrow> real list \<Rightarrow> 'd solve_vars
     \<Rightarrow> error + 'd solve_vars" where
  \<comment> \<open>\<^verbatim>\<open>for (int i = 0; i < vpars.size(); ++i)\<close>, from index \<open>i\<close> on; the list holds
      \<^verbatim>\<open>vpars[i], vpars[i+1], ...\<close>. The \<^verbatim>\<open>break\<close> leaves this loop only.\<close>
  "vpar_loop L c ax tlast tcurrent i [] s = Inr s"
| "vpar_loop L c ax tlast tcurrent i (vpar # rest) s =
     (if vpar_crossed (v_vpar_last s) (v_vpar_current s) vpar
      then
        err_bind
          (refine_root L (v_dense s) ax (arg_abstol c) (v_rootmaxit s)
             (\<lambda>t. err_bind (rd (calc_state L (v_dense s) t) 3) (\<lambda>temp3. Inr (temp3 - vpar)))
             tlast tcurrent (v_vpar_last s - vpar) (v_vpar_current s - vpar))
          (\<lambda>(troot, ykeep, rootmaxit').
             let s' = s\<lparr>v_rootmaxit := rootmaxit',
                       v_res_phi_hits :=
                          v_res_phi_hits s @ [join [troot, real i + real (length (arg_phis c))] ykeep]\<rparr>
             in if arg_vpars_stop c
                then Inr (s'\<lparr>v_res := v_res s' @ [join [troot] ykeep], v_stop := True\<rparr>)
                else vpar_loop L c ax tlast tcurrent (Suc i) rest s')
      else vpar_loop L c ax tlast tcurrent (Suc i) rest s)"

fun phi_loop ::
  "'d odeint \<Rightarrow> solve_args \<Rightarrow> int \<Rightarrow> real \<Rightarrow> real \<Rightarrow> nat \<Rightarrow> real list \<Rightarrow> 'd solve_vars
     \<Rightarrow> error + 'd solve_vars" where
  \<comment> \<open>\<^verbatim>\<open>for (int i = 0; i < phis.size(); ++i)\<close>, from index \<open>i\<close> on. \<^verbatim>\<open>omegas[i]\<close> is read
      on every pass. The \<^verbatim>\<open>break\<close> leaves this loop only.\<close>
  "phi_loop L c ax tlast tcurrent i [] s = Inr s"
| "phi_loop L c ax tlast tcurrent i (phi # rest) s =
     err_bind (rd (arg_omegas c) i) (\<lambda>omega.
       let phase_last = v_phi_last s - omega * v_t_last s;
           phase_current = v_phi_current s - omega * v_t_current s
       in if v_t_last s \<noteq> 0
             \<and> \<lfloor>(phase_last - phi) / (2 * pi)\<rfloor> \<noteq> \<lfloor>(phase_current - phi) / (2 * pi)\<rfloor>
          then
            let fak = c_round (((phase_last + phase_current) / 2 - phi) / (2 * pi));
                phase_shift = real_of_int fak * 2 * pi + phi
            in if (phase_last \<le> phase_shift \<and> phase_shift \<le> phase_current)
                  \<or> (phase_current \<le> phase_shift \<and> phase_shift \<le> phase_last)
               then
                 err_bind
                   (refine_root L (v_dense s) ax (arg_abstol c) (v_rootmaxit s)
                      (\<lambda>t. if arg_flux c
                            then err_bind (rd (calc_state L (v_dense s) t) 2) (\<lambda>temp2.
                                   Inr (temp2 - omega * t - phase_shift))
                            else err_bind (rd (calc_state L (v_dense s) t) 0) (\<lambda>temp0.
                                 err_bind (rd (calc_state L (v_dense s) t) 1) (\<lambda>temp1.
                                   Inr (get_phi temp0 temp1 (v_phi_last s) - omega * t - phase_shift))))
                      tlast tcurrent (phase_last - phase_shift) (phase_current - phase_shift))
                   (\<lambda>(troot, ykeep, rootmaxit').
                      let s' = s\<lparr>v_rootmaxit := rootmaxit',
                                v_res_phi_hits :=
                                   v_res_phi_hits s @ [join [troot, real i] ykeep]\<rparr>
                      in if arg_phis_stop c
                         then Inr (s'\<lparr>v_res := v_res s' @ [join [troot] ykeep], v_stop := True\<rparr>)
                         else phi_loop L c ax tlast tcurrent (Suc i) rest s')
               else Inl AssertionFailed
          else phi_loop L c ax tlast tcurrent (Suc i) rest s)"

fun stopping_loop ::
  "solve_args \<Rightarrow> int \<Rightarrow> nat \<Rightarrow> StoppingCriterion option list \<Rightarrow> 'd solve_vars
     \<Rightarrow> error + 'd solve_vars" where
  \<comment> \<open>\<^verbatim>\<open>for (int i = 0; i < stopping_criteria.size(); ++i)\<close>, from index \<open>i\<close> on. A null
      pointer is skipped by the \<^verbatim>\<open>&&\<close>; for any other entry the seven arguments are
      evaluated, \<^verbatim>\<open>ykeep[3]\<close> among them, before the call.\<close>
  "stopping_loop c ax i [] s = Inr s"
| "stopping_loop c ax i (crit # rest) s =
     err_bind (canon ax (v_y s)) (\<lambda>ykeep.
       case crit of
         None \<Rightarrow> stopping_loop c ax (Suc i) rest s
       | Some criterion \<Rightarrow>
           err_bind (rd ykeep 0) (\<lambda>ykeep0. err_bind (rd ykeep 1) (\<lambda>ykeep1.
           err_bind (rd ykeep 2) (\<lambda>ykeep2. err_bind (rd ykeep 3) (\<lambda>ykeep3.
             if criterion (v_iter s) (v_dt s) (v_t s) ykeep0 ykeep1 ykeep2 ykeep3
             then Inr (s\<lparr>v_stop := True,
                         v_res := v_res s @ [join [v_t s] ykeep],
                         v_res_phi_hits := v_res_phi_hits s @ [join [v_t s, - 1 - real i] ykeep]\<rparr>)
             else stopping_loop c ax (Suc i) rest s)))))"

section \<open>\<^verbatim>\<open>solve\<close>\<close>

definition solve_step :: "'d odeint \<Rightarrow> rhs \<Rightarrow> solve_args \<Rightarrow> 'd solve_vars \<Rightarrow> error + 'd solve_vars" where
  \<comment> \<open>One pass through the body of the \<^verbatim>\<open>do { ... } while\<close> loop.\<close>
  "solve_step L r c s =
     err_bind
       (if \<not> arg_forget_exact_path c \<or> v_t s = 0
        then err_bind (canon (axis r) (v_y s)) (\<lambda>ykeep.
               Inr (s\<lparr>v_res := v_res s @ [join [v_t s] ykeep]\<rparr>))
        else Inr s) (\<lambda>s1.
     err_bind (do_step L (v_dense s1) r) (\<lambda>(d, tlast, tcurrent).
       let s2 = s1\<lparr>v_dense := d, v_iter := v_iter s1 + 1,
                   v_t := current_time L d, v_y := current_state L d\<rparr>
       in err_bind
            (if arg_flux c
             then err_bind (rd (v_y s2) 2) (\<lambda>y2. err_bind (rd (v_y s2) 3) (\<lambda>y3.
                    Inr (s2\<lparr>v_t_current := v_t s2, v_phi_current := y2, v_vpar_current := y3\<rparr>)))
             else err_bind (rd (v_y s2) 0) (\<lambda>y0. err_bind (rd (v_y s2) 1) (\<lambda>y1.
                    Inr (s2\<lparr>v_phi_current := get_phi y0 y1 (v_phi_last s2)\<rparr>)))) (\<lambda>s3.
          let s4 = s3\<lparr>v_dt := tcurrent - tlast\<rparr>
          in err_bind (vpar_loop L c (axis r) tlast tcurrent 0 (arg_vpars c) s4) (\<lambda>s5.
             err_bind (phi_loop L c (axis r) tlast tcurrent 0 (arg_phis c) s5) (\<lambda>s6.
             err_bind (stopping_loop c (axis r) 0 (arg_stopping_criteria c) s6) (\<lambda>s7.
               Inr (s7\<lparr>v_t_last := v_t_current s7,
                       v_phi_last := v_phi_current s7,
                       v_vpar_last := v_vpar_current s7\<rparr>)))))))"

fun solve_loop ::
  "nat \<Rightarrow> 'd odeint \<Rightarrow> rhs \<Rightarrow> solve_args \<Rightarrow> 'd solve_vars \<Rightarrow> (error + 'd solve_vars) option" where
  \<comment> \<open>\<^verbatim>\<open>do { body } while (t < tmax && !stop);\<close> with a bound on the number of passes:
      \<open>None\<close> when the bound is reached before the loop ends.\<close>
  "solve_loop 0 L r c s = None"
| "solve_loop (Suc fuel) L r c s =
     (case solve_step L r c s of
        Inl e \<Rightarrow> Some (Inl e)
      | Inr s' \<Rightarrow>
          if v_t s' < arg_tmax c \<and> \<not> v_stop s' then solve_loop fuel L r c s'
          else Some (Inr s'))"

definition solve_init ::
  "'d odeint \<Rightarrow> indeterminate \<Rightarrow> real list \<Rightarrow> real \<Rightarrow> real \<Rightarrow> real \<Rightarrow> real \<Rightarrow> bool
     \<Rightarrow> error + 'd solve_vars" where
  \<comment> \<open>The declarations of \<^verbatim>\<open>solve\<close> before the loop. \<^verbatim>\<open>phi_last\<close> is assigned in both
      branches of \<^verbatim>\<open>if (flux)\<close> before it is read; the three \<open>current\<close> locals are not.\<close>
  "solve_init L junk y dt dtmax abstol reltol flux =
     (let s0 = \<lparr>v_res = [], v_res_phi_hits = [],
                v_dense = initialize L (make_dense_output L abstol reltol dtmax) y 0 dt,
                v_t = 0, v_y = y, v_dt = dt, v_iter = 0, v_stop = False,
                v_phi_last = 0, v_vpar_last = 0, v_t_last = 0,
                v_phi_current = ind_phi_current junk,
                v_vpar_current = ind_vpar_current junk,
                v_t_current = ind_t_current junk,
                v_rootmaxit = 200\<rparr>
      in if flux
         then err_bind (rd y 2) (\<lambda>y2. err_bind (rd y 3) (\<lambda>y3.
                Inr (s0\<lparr>v_t_last := v_t s0, v_phi_last := y2, v_vpar_last := y3\<rparr>)))
         else err_bind (rd y 0) (\<lambda>y0. err_bind (rd y 1) (\<lambda>y1.
                Inr (s0\<lparr>v_phi_last := get_phi y0 y1 pi\<rparr>))))"

definition solve_finish ::
  "'d odeint \<Rightarrow> rhs \<Rightarrow> real \<Rightarrow> 'd solve_vars \<Rightarrow> error + real list list \<times> real list list" where
  \<comment> \<open>After the loop: \<^verbatim>\<open>if (!stop) { ... res.push_back(join({tmax}, ykeep)); }\<close> and the
      returned pair.\<close>
  "solve_finish L r tmax s =
     (if \<not> v_stop s
      then err_bind (canon (axis r) (calc_state L (v_dense s) tmax)) (\<lambda>ykeep.
             Inr (v_res s @ [join [tmax] ykeep], v_res_phi_hits s))
      else Inr (v_res s, v_res_phi_hits s))"

definition solve ::
  "'d odeint \<Rightarrow> indeterminate \<Rightarrow> nat \<Rightarrow> rhs \<Rightarrow> real list \<Rightarrow> real \<Rightarrow> real \<Rightarrow> real \<Rightarrow> real \<Rightarrow> real
     \<Rightarrow> real list \<Rightarrow> real list \<Rightarrow> StoppingCriterion option list \<Rightarrow> real list
     \<Rightarrow> bool \<Rightarrow> bool \<Rightarrow> bool \<Rightarrow> bool
     \<Rightarrow> (error + real list list \<times> real list list) option" where
  \<comment> \<open>\<^verbatim>\<open>solve(rhs, y, tmax, dt, dtmax, abstol, reltol, phis, omegas, stopping_criteria,
      vpars, phis_stop, vpars_stop, flux, forget_exact_path)\<close>, with the libraries, the
      indeterminate locals and the bound on loop passes in front. The result is the pair
      \<^verbatim>\<open>(res, res_phi_hits)\<close>.\<close>
  "solve L junk fuel r y tmax dt dtmax abstol reltol phis omegas stopping_criteria vpars
         phis_stop vpars_stop flux forget_exact_path =
     (let c = \<lparr>arg_tmax = tmax, arg_abstol = abstol, arg_phis = phis, arg_omegas = omegas,
               arg_stopping_criteria = stopping_criteria, arg_vpars = vpars,
               arg_phis_stop = phis_stop, arg_vpars_stop = vpars_stop, arg_flux = flux,
               arg_forget_exact_path = forget_exact_path\<rparr>
      in case solve_init L junk y dt dtmax abstol reltol flux of
           Inl e \<Rightarrow> Some (Inl e)
         | Inr s0 \<Rightarrow>
             (case solve_loop fuel L r c s0 of
                None \<Rightarrow> None
              | Some (Inl e) \<Rightarrow> Some (Inl e)
              | Some (Inr s) \<Rightarrow> Some (solve_finish L r tmax s)))"

section \<open>Entry points\<close>

definition particle_guiding_center_tracing ::
  "'d odeint \<Rightarrow> indeterminate \<Rightarrow> nat \<Rightarrow> magnetic_field \<Rightarrow> real \<times> real \<times> real
     \<Rightarrow> real \<Rightarrow> real \<Rightarrow> real \<Rightarrow> real \<Rightarrow> real \<Rightarrow> real \<Rightarrow> real \<Rightarrow> bool
     \<Rightarrow> real list \<Rightarrow> real list \<Rightarrow> StoppingCriterion option list
     \<Rightarrow> (error + real list list \<times> real list list) option" where
  "particle_guiding_center_tracing L junk fuel field xyz_init m q vtotal vtang tmax abstol reltol
       vacuum phis omegas stopping_criteria =
     (case xyz_init of (x0, y0, z0) \<Rightarrow>
        let AbsB = AbsB_at_xyz field x0 y0 z0;
            vperp2 = vtotal * vtotal - vtang * vtang;
            mu = vperp2 / (2 * AbsB);
            y = [x0, y0, z0, vtang];
            r0 = sqrt (x0 * x0 + y0 * y0);
            dtmax = r0 * 0.5 * pi / vtotal;
            dt = 1 / 1000 * dtmax
        in if vacuum
           then solve L junk fuel (GuidingCenterVacuumRHS field m q mu) y tmax dt dtmax abstol reltol
                  phis omegas stopping_criteria [] False False False False
           else Some (Inl (LogicError
                  ''Guiding center right hand side currently only implemented for vacuum fields.'')))"

definition fieldline_tracing ::
  "'d odeint \<Rightarrow> indeterminate \<Rightarrow> nat \<Rightarrow> magnetic_field \<Rightarrow> real \<times> real \<times> real
     \<Rightarrow> real \<Rightarrow> real \<Rightarrow> real \<Rightarrow> real list \<Rightarrow> StoppingCriterion option list
     \<Rightarrow> (error + real list list \<times> real list list) option" where
  "fieldline_tracing L junk fuel field xyz_init tmax abstol reltol phis stopping_criteria =
     (case xyz_init of (x0, y0, z0) \<Rightarrow>
        let r0 = sqrt (x0 * x0 + y0 * y0);
            AbsB = AbsB_at_xyz field x0 y0 z0;
            dtmax = r0 * 0.5 * pi / AbsB;
            dt = 1 / 100000 * dtmax;
            omegas = replicate (length phis) 0
        in solve L junk fuel (FieldlineRHS field) [x0, y0, z0] tmax dt dtmax abstol reltol
             phis omegas stopping_criteria [] False False False False)"

section \<open>What the properties assume of the libraries\<close>

text \<open>
  Boost's dense-output stepper starts at the time it is initialised with, and each
  accepted step starts at the current time, ends strictly later, and leaves the stepper at
  its end. \<^verbatim>\<open>toms748_solve\<close> returns a bracket inside the interval it was given.
\<close>

definition stepper_starts :: "'d odeint \<Rightarrow> bool" where
  "stepper_starts L \<longleftrightarrow> (\<forall>d y t dt. current_time L (initialize L d y t dt) = t)"

definition stepper_advances :: "'d odeint \<Rightarrow> rhs \<Rightarrow> bool" where
  "stepper_advances L r \<longleftrightarrow>
     (\<forall>d d' tlast tcurrent. do_step L d r = Inr (d', tlast, tcurrent) \<longrightarrow>
        tlast = current_time L d \<and> tlast < tcurrent \<and> current_time L d' = tcurrent)"

definition root_in_bracket :: "'d odeint \<Rightarrow> bool" where
  "root_in_bracket L \<longleftrightarrow>
     (\<forall>f a b fa fb bits maxit lo hi maxit'.
        a \<le> b \<longrightarrow> toms748_solve L f a b fa fb bits maxit = Inr ((lo, hi), maxit') \<longrightarrow>
        a \<le> lo \<and> lo \<le> b \<and> a \<le> hi \<and> hi \<le> b)"

text \<open>
  The brackets \<^verbatim>\<open>(tlast, tcurrent)\<close> of the steps a run of the loop completes, in order:
  the pairs \<^verbatim>\<open>do_step\<close> returns in the passes whose body runs to its end.
\<close>

fun loop_brackets ::
  "nat \<Rightarrow> 'd odeint \<Rightarrow> rhs \<Rightarrow> solve_args \<Rightarrow> 'd solve_vars \<Rightarrow> (real \<times> real) list" where
  "loop_brackets 0 L r c s = []"
| "loop_brackets (Suc fuel) L r c s =
     (case (do_step L (v_dense s) r, solve_step L r c s) of
        (Inr (d, tlast, tcurrent), Inr s') \<Rightarrow>
          (tlast, tcurrent) #
            (if v_t s' < arg_tmax c \<and> \<not> v_stop s' then loop_brackets fuel L r c s' else [])
      | _ \<Rightarrow> [])"

definition solve_brackets ::
  "'d odeint \<Rightarrow> indeterminate \<Rightarrow> nat \<Rightarrow> rhs \<Rightarrow> real list \<Rightarrow> real \<Rightarrow> real \<Rightarrow> real \<Rightarrow> real \<Rightarrow> real
     \<Rightarrow> real list \<Rightarrow> real list \<Rightarrow> StoppingCriterion option list \<Rightarrow> real list
     \<Rightarrow> bool \<Rightarrow> bool \<Rightarrow> bool \<Rightarrow> bool \<Rightarrow> (real \<times> real) list" where
  "solve_brackets L junk fuel r y tmax dt dtmax abstol reltol phis omegas stopping_criteria vpars
         phis_stop vpars_stop flux forget_exact_path =
     (let c = \<lparr>arg_tmax = tmax, arg_abstol = abstol, arg_phis = phis, arg_omegas = omegas,
               arg_stopping_criteria = stopping_criteria, arg_vpars = vpars,
               arg_phis_stop = phis_stop, arg_vpars_stop = vpars_stop, arg_flux = flux,
               arg_forget_exact_path = forget_exact_path\<rparr>
      in case solve_init L junk y dt dtmax abstol reltol flux of
           Inl e \<Rightarrow> []
         | Inr s0 \<Rightarrow> loop_brackets fuel L r c s0)"

section \<open>A small stepper, root solver and field for concrete runs\<close>

text \<open>
  Concrete runs need concrete libraries. The stepper below takes explicit Euler steps of
  length 1 with linear dense output. The root solver returns the interval it was given
  when its cap is 0 and an end of the interval when the function is 0 there, both with
  count 0; otherwise it takes one secant step, which is exact on that dense output, with
  count 1. They satisfy the three assumptions above.
\<close>

record unit_stepper =
  us_t_old :: real
  us_t :: real
  us_y_old :: "real list"
  us_y :: "real list"

definition demo_lib :: "unit_stepper odeint" where
  "demo_lib =
     \<lparr>make_dense_output = (\<lambda>abstol reltol dtmax.
        \<lparr>us_t_old = 0, us_t = 0, us_y_old = [], us_y = []\<rparr>),
      initialize = (\<lambda>d y t dt. \<lparr>us_t_old = t, us_t = t, us_y_old = y, us_y = y\<rparr>),
      do_step = (\<lambda>d r.
        case rhs_eval r (us_y d) (us_t d) of
          Inl e \<Rightarrow> Inl e
        | Inr f \<Rightarrow> Inr (\<lparr>us_t_old = us_t d, us_t = us_t d + 1, us_y_old = us_y d,
                          us_y = map2 (+) (us_y d) f\<rparr>, us_t d, us_t d + 1)),
      current_time = us_t,
      current_state = us_y,
      calc_state = (\<lambda>d t. map2 (\<lambda>a b. a + (t - us_t_old d) * (b - a)) (us_y_old d) (us_y d)),
      toms748_solve = (\<lambda>f a b fa fb bits max_iter.
        if max_iter = 0 then Inr ((a, b), 0)
        else if b \<le> a then Inl (LibraryError ''toms748: a >= b'')
        else if fa = 0 then Inr ((a, a), 0)
        else if fb = 0 then Inr ((b, b), 0)
        else if fa * fb > 0 then Inl (LibraryError ''toms748: not bracketed'')
        else Inr ((a - fa * (b - a) / (fb - fa), a - fa * (b - a) / (fb - fa)), 1))\<rparr>"

definition demo_rhs :: rhs where
  \<comment> \<open>A flux-coordinate right-hand side of size 4 with constant derivative: \<open>\<zeta>\<close> grows
      and the parallel velocity falls by 1 per unit of time.\<close>
  "demo_rhs = \<lparr>Size = 4, axis = 0, rhs_eval = (\<lambda>ys t. Inr [0, 0, 1, - 1])\<rparr>"

definition demo_field :: magnetic_field where
  \<comment> \<open>A uniform field along the Cartesian y direction.\<close>
  "demo_field =
     \<lparr>B_at_cyl = (\<lambda>r phi z. (0, 1, 0)), AbsB_at_cyl = (\<lambda>r phi z. 1),
      GradAbsB_at_cyl = (\<lambda>r phi z. (0, 0, 0)), AbsB_at_xyz = (\<lambda>x y z. 1)\<rparr>"

definition always_stop :: StoppingCriterion where
  "always_stop iter dt t x y z vpar = True"

definition never_stop :: StoppingCriterion where
  "never_stop iter dt t x y z vpar = False"

definition zeta_above :: "real \<Rightarrow> StoppingCriterion" where
  \<comment> \<open>A criterion on the third state component: it fires once \<open>\<zeta>\<close> exceeds the limit.\<close>
  "zeta_above limit iter dt t s theta zeta vpar \<longleftrightarrow> limit < zeta"

definition iteration_cap :: "int \<Rightarrow> StoppingCriterion" where
  \<comment> \<open>A criterion on the number of steps taken: it fires once \<^verbatim>\<open>iter\<close> exceeds the cap.\<close>
  "iteration_cap max_iter iter dt t x y z vpar \<longleftrightarrow> max_iter < iter"

definition junk :: "real \<Rightarrow> indeterminate" where
  \<comment> \<open>Indeterminate locals that all hold the value \<open>x\<close>.\<close>
  "junk x = \<lparr>ind_phi_current = x, ind_vpar_current = x, ind_t_current = x\<rparr>"

section \<open>Properties\<close>

subsection \<open>The angle of a point\<close>

lemma atan2_range: "- pi < atan2 y x \<and> atan2 y x \<le> pi"
proof -
  have a: "- (pi/2) < arctan (y/x)" "arctan (y/x) < pi/2"
    by (rule arctan_lbound, rule arctan_ubound)
  have n: "x < 0 \<Longrightarrow> 0 \<le> y \<Longrightarrow> arctan (y/x) \<le> 0"
    by (simp add: divide_nonneg_neg arctan_le_zero_iff)
  have p: "x < 0 \<Longrightarrow> y < 0 \<Longrightarrow> 0 < arctan (y/x)"
    by (simp add: divide_neg_neg arctan_less_zero_iff zero_less_arctan_iff)
  consider "0 < x" | "x < 0" "0 \<le> y" | "x < 0" "y < 0" | "x = 0" by linarith
  then show ?thesis
  proof cases
    case 1 then show ?thesis using a pi_gt_zero by (simp add: atan2_def)
  next
    case 2 then show ?thesis using a n pi_gt_zero by (simp add: atan2_def)
  next
    case 3 then show ?thesis using a p pi_gt_zero by (simp add: atan2_def)
  next
    case 4
    have "atan2 y x = pi / 2 \<or> atan2 y x = - (pi / 2) \<or> atan2 y x = 0"
      using 4 by (simp add: atan2_def)
    then show ?thesis using pi_gt_zero by linarith
  qed
qed

lemma sqrt_one_plus_ratio:
  fixes x y :: real
  assumes "x \<noteq> 0"
  shows "sqrt (1 + (y / x)\<^sup>2) = sqrt (x\<^sup>2 + y\<^sup>2) / \<bar>x\<bar>"
proof -
  have "1 + (y / x)\<^sup>2 = (x\<^sup>2 + y\<^sup>2) / x\<^sup>2"
    using assms by (simp add: field_simps power2_eq_square)
  then show ?thesis by (simp add: real_sqrt_divide)
qed

lemma cos_sin_atan2:
  fixes x y :: real
  assumes "x \<noteq> 0 \<or> y \<noteq> 0"
  shows "cos (atan2 y x) = x / sqrt (x\<^sup>2 + y\<^sup>2)"
    and "sin (atan2 y x) = y / sqrt (x\<^sup>2 + y\<^sup>2)"
proof -
  consider "0 < x" | "x < 0" "0 \<le> y" | "x < 0" "y < 0" | "x = 0" "0 < y" | "x = 0" "y < 0"
    using assms by linarith
  then have "cos (atan2 y x) = x / sqrt (x\<^sup>2 + y\<^sup>2) \<and> sin (atan2 y x) = y / sqrt (x\<^sup>2 + y\<^sup>2)"
  proof cases
    case 1
    then show ?thesis
      by (simp add: atan2_def cos_arctan sin_arctan sqrt_one_plus_ratio)
  next
    case 2
    then show ?thesis
      by (simp add: atan2_def cos_arctan sin_arctan sqrt_one_plus_ratio)
  next
    case 3
    then show ?thesis
      by (simp add: atan2_def cos_arctan sin_arctan sqrt_one_plus_ratio)
  next
    case 4
    then show ?thesis by (simp add: atan2_def)
  next
    case 5
    then show ?thesis by (simp add: atan2_def)
  qed
  then show "cos (atan2 y x) = x / sqrt (x\<^sup>2 + y\<^sup>2)"
    and "sin (atan2 y x) = y / sqrt (x\<^sup>2 + y\<^sup>2)" by simp_all
qed

lemma atan2_polar:
  fixes r theta :: real
  assumes "0 < r"
  shows "\<exists>k::int. atan2 (r * sin theta) (r * cos theta) = theta + 2 * pi * real_of_int k"
proof -
  let ?x = "r * cos theta" and ?y = "r * sin theta"
  have "?x\<^sup>2 + ?y\<^sup>2 = r\<^sup>2 * ((cos theta)\<^sup>2 + (sin theta)\<^sup>2)"
    by (simp only: power_mult_distrib distrib_left)
  also have "\<dots> = r\<^sup>2" by simp
  finally have sq: "sqrt (?x\<^sup>2 + ?y\<^sup>2) = r"
    using assms by simp
  have nz: "?x \<noteq> 0 \<or> ?y \<noteq> 0"
  proof (rule ccontr)
    assume "\<not> ?thesis"
    then have "cos theta = 0" "sin theta = 0" using assms by simp_all
    then have "(cos theta)\<^sup>2 + (sin theta)\<^sup>2 = 0" by simp
    then show False by simp
  qed
  have "cos (atan2 ?y ?x) = cos theta" "sin (atan2 ?y ?x) = sin theta"
    using cos_sin_atan2 [OF nz] sq assms by simp_all
  then show ?thesis using sin_cos_eq_iff [of "atan2 ?y ?x" theta] by simp
qed

subsection \<open>Phase unwrapping\<close>

lemma shifted_atan2_range: "0 \<le> shifted_atan2 x y \<and> shifted_atan2 x y < 2 * pi"
  using atan2_range [of y x] pi_gt_zero by (auto simp: shifted_atan2_def Let_def)

lemma c_round_close: "\<bar>x - real_of_int (c_round x)\<bar> \<le> 1 / 2"
proof (cases "0 \<le> x")
  case True
  have "real_of_int \<lfloor>x + 1 / 2\<rfloor> \<le> x + 1 / 2" "x + 1 / 2 < real_of_int \<lfloor>x + 1 / 2\<rfloor> + 1"
    by linarith+
  moreover have "c_round x = \<lfloor>x + 1 / 2\<rfloor>" using True by (simp add: c_round_def)
  ultimately show ?thesis by linarith
next
  case False
  have "x - 1 / 2 \<le> real_of_int \<lceil>x - 1 / 2\<rceil>" "real_of_int \<lceil>x - 1 / 2\<rceil> < x - 1 / 2 + 1"
    by linarith+
  moreover have "c_round x = \<lceil>x - 1 / 2\<rceil>" using False by (simp add: c_round_def)
  ultimately show ?thesis by linarith
qed

lemma nearest_multiple_close:
  "\<bar>r - real_of_int (c_round (r / (2 * pi))) * 2 * pi\<bar> \<le> pi"
proof -
  let ?n = "real_of_int (c_round (r / (2 * pi)))"
  have "\<bar>r / (2 * pi) - ?n\<bar> \<le> 1 / 2" by (rule c_round_close)
  then have "\<bar>r / (2 * pi) - ?n\<bar> * (2 * pi) \<le> 1 / 2 * (2 * pi)"
    by (rule mult_right_mono) simp
  moreover have "\<bar>r / (2 * pi) - ?n\<bar> * (2 * pi) = \<bar>(r / (2 * pi) - ?n) * (2 * pi)\<bar>"
    by (simp add: abs_mult)
  moreover have "(r / (2 * pi) - ?n) * (2 * pi) = r - ?n * 2 * pi"
    by (simp add: field_simps)
  ultimately show ?thesis by simp
qed

lemma get_phi_cases:
  fixes x y r :: real
  defines "nm \<equiv> real_of_int (c_round (r / (2 * pi))) * 2 * pi"
  defines "p \<equiv> shifted_atan2 x y"
  shows "get_phi x y r \<in> {nm - 2 * pi + p, nm + p, nm + 2 * pi + p}"
    and "\<bar>get_phi x y r - r\<bar> \<le> \<bar>nm - 2 * pi + p - r\<bar>"
    and "\<bar>get_phi x y r - r\<bar> \<le> \<bar>nm + p - r\<bar>"
    and "\<bar>get_phi x y r - r\<bar> \<le> \<bar>nm + 2 * pi + p - r\<bar>"
  unfolding get_phi_def Let_def nm_def p_def by (auto simp: min_def)

lemma get_phi_le_pi: "\<bar>get_phi x y r - r\<bar> \<le> pi"
proof -
  define nm where "nm = real_of_int (c_round (r / (2 * pi))) * 2 * pi"
  define p where "p = shifted_atan2 x y"
  have c: "\<bar>r - nm\<bar> \<le> pi" unfolding nm_def by (rule nearest_multiple_close)
  have p: "0 \<le> p" "p < 2 * pi" using shifted_atan2_range [of x y] by (simp_all add: p_def)
  have d1: "\<bar>get_phi x y r - r\<bar> \<le> \<bar>nm - 2 * pi + p - r\<bar>"
   and d2: "\<bar>get_phi x y r - r\<bar> \<le> \<bar>nm + p - r\<bar>"
    using get_phi_cases(2,3) [of x y r] by (simp_all add: nm_def p_def)
  show ?thesis using c p d1 d2 by linarith
qed

lemma get_phi_branch:
  "\<exists>k::int. get_phi x y r = shifted_atan2 x y + 2 * pi * real_of_int k"
proof -
  define n where "n = c_round (r / (2 * pi))"
  have "get_phi x y r \<in> {real_of_int n * 2 * pi - 2 * pi + shifted_atan2 x y,
      real_of_int n * 2 * pi + shifted_atan2 x y, real_of_int n * 2 * pi + 2 * pi + shifted_atan2 x y}"
    using get_phi_cases(1) [of x y r] by (simp add: n_def)
  then consider "get_phi x y r = shifted_atan2 x y + 2 * pi * real_of_int (n - 1)"
    | "get_phi x y r = shifted_atan2 x y + 2 * pi * real_of_int n"
    | "get_phi x y r = shifted_atan2 x y + 2 * pi * real_of_int (n + 1)"
    by (auto simp: algebra_simps)
  then show ?thesis by (cases; blast)
qed

lemma get_phi_closest:
  "\<bar>get_phi x y r - r\<bar> \<le> \<bar>shifted_atan2 x y + 2 * pi * real_of_int j - r\<bar>"
proof -
  define n where "n = c_round (r / (2 * pi))"
  define nm where "nm = real_of_int n * 2 * pi"
  define p where "p = shifted_atan2 x y"
  define m where "m = j - n"
  have c: "\<bar>r - nm\<bar> \<le> pi" unfolding nm_def n_def by (rule nearest_multiple_close)
  have p: "0 \<le> p" "p < 2 * pi" using shifted_atan2_range [of x y] by (simp_all add: p_def)
  have d1: "\<bar>get_phi x y r - r\<bar> \<le> \<bar>nm - 2 * pi + p - r\<bar>"
   and d2: "\<bar>get_phi x y r - r\<bar> \<le> \<bar>nm + p - r\<bar>"
   and d3: "\<bar>get_phi x y r - r\<bar> \<le> \<bar>nm + 2 * pi + p - r\<bar>"
    using get_phi_cases(2,3,4) [of x y r] by (simp_all add: nm_def n_def p_def)
  have le: "\<bar>get_phi x y r - r\<bar> \<le> pi" by (rule get_phi_le_pi)
  have cand: "p + 2 * pi * real_of_int j = nm + p + 2 * pi * real_of_int m"
    by (simp add: nm_def m_def algebra_simps)
  consider "m \<le> -2" | "m = -1" | "m = 0" | "m = 1" | "2 \<le> m" by linarith
  then have "\<bar>get_phi x y r - r\<bar> \<le> \<bar>nm + p + 2 * pi * real_of_int m - r\<bar>"
  proof cases
    case 1
    then have "real_of_int m \<le> -2" by linarith
    then have "2 * pi * real_of_int m \<le> 2 * pi * (-2)"
      by (intro mult_left_mono) simp_all
    then show ?thesis using c p le by linarith
  next
    case 2 then show ?thesis using d1 by (simp add: algebra_simps)
  next
    case 3 then show ?thesis using d2 by simp
  next
    case 4 then show ?thesis using d3 by (simp add: algebra_simps)
  next
    case 5
    then have "2 \<le> real_of_int m" by linarith
    then have "2 * pi * 2 \<le> 2 * pi * real_of_int m"
      by (intro mult_left_mono) simp_all
    then show ?thesis using c p le by linarith
  qed
  then show ?thesis using cand by (simp add: p_def)
qed


lemma get_phi_atan2:
  "\<exists>k::int. get_phi x y r = atan2 y x + 2 * pi * real_of_int k"
proof -
  obtain k :: int where k: "get_phi x y r = shifted_atan2 x y + 2 * pi * real_of_int k"
    using get_phi_branch [of x y r] by blast
  show ?thesis
  proof (cases "atan2 y x < 0")
    case True
    then have "get_phi x y r = atan2 y x + 2 * pi * real_of_int (k + 1)"
      using k by (simp add: shifted_atan2_def Let_def algebra_simps)
    then show ?thesis by blast
  next
    case False
    then have "get_phi x y r = atan2 y x + 2 * pi * real_of_int k"
      using k by (simp add: shifted_atan2_def Let_def)
    then show ?thesis by blast
  qed
qed

lemma get_phi_cos_sin:
  "cos (get_phi x y r) = cos (atan2 y x)" "sin (get_phi x y r) = sin (atan2 y x)"
  using get_phi_atan2 [of x y r] sin_cos_eq_iff [of "get_phi x y r" "atan2 y x"] by simp_all

lemma get_phi_point:
  "sqrt (x\<^sup>2 + y\<^sup>2) * cos (get_phi x y r) = x"
  "sqrt (x\<^sup>2 + y\<^sup>2) * sin (get_phi x y r) = y"
proof -
  have "sqrt (x\<^sup>2 + y\<^sup>2) * cos (atan2 y x) = x \<and> sqrt (x\<^sup>2 + y\<^sup>2) * sin (atan2 y x) = y"
  proof (cases "x \<noteq> 0 \<or> y \<noteq> 0")
    case True
    then have nz: "sqrt (x\<^sup>2 + y\<^sup>2) \<noteq> 0" by auto
    have "sqrt (x\<^sup>2 + y\<^sup>2) * (x / sqrt (x\<^sup>2 + y\<^sup>2)) = x"
      "sqrt (x\<^sup>2 + y\<^sup>2) * (y / sqrt (x\<^sup>2 + y\<^sup>2)) = y"
      using nz by simp_all
    then show ?thesis by (simp only: cos_sin_atan2 [OF True])
  next
    case False
    then show ?thesis by simp
  qed
  then show "sqrt (x\<^sup>2 + y\<^sup>2) * cos (get_phi x y r) = x"
    "sqrt (x\<^sup>2 + y\<^sup>2) * sin (get_phi x y r) = y"
    by (simp_all add: get_phi_cos_sin)
qed

lemma get_phi_unit_circle:
  "\<exists>k::int. get_phi (cos a) (sin a) r = a + 2 * pi * real_of_int k"
proof -
  have "sqrt ((cos a)\<^sup>2 + (sin a)\<^sup>2) = 1" by simp
  then have "cos (get_phi (cos a) (sin a) r) = cos a" "sin (get_phi (cos a) (sin a) r) = sin a"
    using get_phi_point [of "cos a" "sin a" r] by simp_all
  then show ?thesis using sin_cos_eq_iff [of "get_phi (cos a) (sin a) r" a] by simp
qed

text \<open>
  Claim C10. Let \<open>\<phi>\<^sub>0\<close> be \<^verbatim>\<open>atan2(y, x)\<close> shifted into \<open>[0, 2\<pi>)\<close>, that is
  \<^verbatim>\<open>atan2(y, x)\<close> itself when it is not negative and \<^verbatim>\<open>atan2(y, x) + 2\<pi>\<close> otherwise.
  Then \<open>0 \<le> \<phi>\<^sub>0 < 2\<pi>\<close>; \<^verbatim>\<open>get_phi(x, y, phi_near)\<close> is \<open>\<phi>\<^sub>0 + 2\<pi>k\<close> for an integer \<open>k\<close>,
  and no branch \<open>\<phi>\<^sub>0 + 2\<pi>j\<close> is closer to \<^verbatim>\<open>phi_near\<close>. The result is \<^verbatim>\<open>atan2(y, x)\<close> up to
  a multiple of \<open>2\<pi>\<close> and an angle of the point: \<open>(x, y)\<close> is the point at distance
  \<open>sqrt (x\<^sup>2 + y\<^sup>2)\<close> from the origin in the direction of the result. For a point
  \<open>(cos a, sin a)\<close> of the unit circle and every reference \<open>r\<close>, the result is at most \<open>\<pi>\<close>
  away from \<open>r\<close> and is \<open>a\<close> up to a multiple of \<open>2\<pi>\<close>.
\<close>

theorem get_phi_closest_branch:
  "(let phi0 = (if atan2 y x < 0 then atan2 y x + 2 * pi else atan2 y x) in
      0 \<le> phi0 \<and> phi0 < 2 * pi
      \<and> (\<exists>k::int. get_phi x y phi_near = phi0 + 2 * pi * real_of_int k)
      \<and> (\<forall>j::int. \<bar>get_phi x y phi_near - phi_near\<bar>
                    \<le> \<bar>phi0 + 2 * pi * real_of_int j - phi_near\<bar>))
   \<and> (\<exists>k::int. get_phi x y phi_near = atan2 y x + 2 * pi * real_of_int k)
   \<and> sqrt (x\<^sup>2 + y\<^sup>2) * cos (get_phi x y phi_near) = x
   \<and> sqrt (x\<^sup>2 + y\<^sup>2) * sin (get_phi x y phi_near) = y
   \<and> \<bar>get_phi (cos a) (sin a) r - r\<bar> \<le> pi
   \<and> (\<exists>k::int. get_phi (cos a) (sin a) r = a + 2 * pi * real_of_int k)"
proof -
  have s: "(if atan2 y x < 0 then atan2 y x + 2 * pi else atan2 y x) = shifted_atan2 x y"
    by (simp add: shifted_atan2_def Let_def)
  show ?thesis
    unfolding Let_def s
    using get_phi_branch [of x y phi_near] shifted_atan2_range [of x y]
      get_phi_closest [of x y phi_near] get_phi_le_pi [of "cos a" "sin a" r]
      get_phi_atan2 [of x y phi_near] get_phi_point [of x y phi_near]
      get_phi_unit_circle [of a r]
    by blast
qed

theorem get_phi_closest_branch_witness:
  "\<bar>get_phi (cos 0) (sin 0) 7 - 7\<bar> \<le> pi
   \<and> (\<exists>k::int. get_phi 1 0 7 = atan2 0 1 + 2 * pi * real_of_int k)
   \<and> sqrt (1\<^sup>2 + 0\<^sup>2) * cos (get_phi 1 0 7) = 1"
  using get_phi_closest_branch [of 0 1 7 0 7] by simp

subsection \<open>Coordinate charts\<close>

text \<open>
  Claim C9. For each chart 0, 1, 2 and every \<open>s > 0\<close> and \<open>\<theta>\<close>: the initial state that
  \<^verbatim>\<open>particle_guiding_center_boozer_tracing\<close> builds from \<open>(s, \<theta>)\<close>, read back by the
  right-hand side's conversion, gives \<open>s\<close> exactly and \<open>\<theta>\<close> up to an integer multiple of
  \<open>2\<pi>\<close>.
\<close>

theorem chart_round_trip:
  assumes "ax \<in> {0, 1, 2}" and "0 < s"
  shows "\<exists>k::int. chart_s_theta ax (boozer_initial_state ax (s, theta, zeta) vtang)
                   = Inr (s, theta + 2 * pi * real_of_int k)"
proof -
  consider "ax = 0" | "ax = 1" | "ax = 2" using assms(1) by auto
  then show ?thesis
  proof cases
    case 1
    have "chart_s_theta ax (boozer_initial_state ax (s, theta, zeta) vtang)
            = Inr (s, theta + 2 * pi * real_of_int 0)"
      using 1 by (simp add: chart_s_theta_def boozer_initial_state_def err_bind_def rd_def)
    then show ?thesis by blast
  next
    case 2
    have pos: "0 < sqrt s" using assms(2) by simp
    obtain k :: int where k: "atan2 (sqrt s * sin theta) (sqrt s * cos theta)
        = theta + 2 * pi * real_of_int k"
      using atan2_polar [OF pos, of theta] by blast
    have "(sqrt s * cos theta)\<^sup>2 + (sqrt s * sin theta)\<^sup>2 = s * ((cos theta)\<^sup>2 + (sin theta)\<^sup>2)"
      using assms(2) by (simp only: power_mult_distrib distrib_left) simp
    then have sq: "(sqrt s * cos theta)\<^sup>2 + (sqrt s * sin theta)\<^sup>2 = s" by simp
    have "chart_s_theta ax (boozer_initial_state ax (s, theta, zeta) vtang)
            = Inr (s, theta + 2 * pi * real_of_int k)"
      using 2 k sq by (simp add: chart_s_theta_def boozer_initial_state_def err_bind_def rd_def)
    then show ?thesis by blast
  next
    case 3
    obtain k :: int where k: "atan2 (s * sin theta) (s * cos theta)
        = theta + 2 * pi * real_of_int k"
      using atan2_polar [OF assms(2), of theta] by blast
    have "(s * cos theta)\<^sup>2 + (s * sin theta)\<^sup>2 = s\<^sup>2 * ((cos theta)\<^sup>2 + (sin theta)\<^sup>2)"
      by (simp only: power_mult_distrib distrib_left)
    then have "(s * cos theta)\<^sup>2 + (s * sin theta)\<^sup>2 = s\<^sup>2" by simp
    then have sq: "sqrt ((s * cos theta)\<^sup>2 + (s * sin theta)\<^sup>2) = s"
      using assms(2) by simp
    have "chart_s_theta ax (boozer_initial_state ax (s, theta, zeta) vtang)
            = Inr (s, theta + 2 * pi * real_of_int k)"
      using 3 k sq by (simp add: chart_s_theta_def boozer_initial_state_def err_bind_def rd_def)
    then show ?thesis by blast
  qed
qed

theorem chart_round_trip_witness:
  "\<exists>k::int. chart_s_theta 1 (boozer_initial_state 1 (4, 0, 0) 1) = Inr (4, 0 + 2 * pi * real_of_int k)"
  using chart_round_trip [of 1 4 0 0 1] by simp

subsection \<open>The guiding-centre entry point\<close>

text \<open>
  Claim C8. \<^verbatim>\<open>particle_guiding_center_tracing\<close> called with \<^verbatim>\<open>vacuum = false\<close> fails with
  the logic error for the unsupported mode and returns neither trajectory nor events; with
  \<^verbatim>\<open>vacuum = true\<close> it is \<^verbatim>\<open>solve\<close> on the vacuum guiding-centre right-hand side, with the
  magnetic moment, the initial state and the step sizes computed from the arguments.
\<close>

theorem guiding_center_tracing_vacuum_only:
  "particle_guiding_center_tracing L jk fuel field (x0, y0, z0) m q vtotal vtang tmax abstol reltol
       False phis omegas stopping_criteria
     = Some (Inl (LogicError
         ''Guiding center right hand side currently only implemented for vacuum fields.''))
   \<and> particle_guiding_center_tracing L jk fuel field (x0, y0, z0) m q vtotal vtang tmax abstol reltol
       True phis omegas stopping_criteria
     = solve L jk fuel
         (GuidingCenterVacuumRHS field m q
            ((vtotal * vtotal - vtang * vtang) / (2 * AbsB_at_xyz field x0 y0 z0)))
         [x0, y0, z0, vtang] tmax
         (1 / 1000 * (sqrt (x0 * x0 + y0 * y0) * 0.5 * pi / vtotal))
         (sqrt (x0 * x0 + y0 * y0) * 0.5 * pi / vtotal)
         abstol reltol phis omegas stopping_criteria [] False False False False"
  by (simp add: particle_guiding_center_tracing_def Let_def)

theorem guiding_center_tracing_vacuum_only_witness:
  "particle_guiding_center_tracing demo_lib (junk 0) 1 demo_field (1, 0, 0) 1 1 1 0 1 (1 / 100) (1 / 100)
       False [] [] []
     = Some (Inl (LogicError
         ''Guiding center right hand side currently only implemented for vacuum fields.''))"
  using guiding_center_tracing_vacuum_only [of demo_lib "junk 0" 1 demo_field 1 0 0 1 1 1 0 1
      "1 / 100" "1 / 100" "[]" "[]" "[]"]
  by simp

subsection \<open>The scans of one step\<close>

lemma stopping_loop_size3:
  assumes "length (v_y s) = 3" and "Some crit \<in> set crits" and "ax \<noteq> 1" and "ax \<noteq> 2"
  shows "stopping_loop c ax i crits s = Inl OutOfBounds"
  using assms
proof (induction crits arbitrary: i)
  case Nil
  then show ?case by simp
next
  case (Cons a crits)
  show ?case
  proof (cases a)
    case None
    with Cons show ?thesis by (simp add: canon_def err_bind_def)
  next
    case (Some f)
    with Cons(2,4,5) show ?thesis by (simp add: canon_def err_bind_def rd_def)
  qed
qed

lemma phi_loop_first_step:
  assumes "v_t_last s = 0" and "i + length ps \<le> length (arg_omegas c)"
  shows "phi_loop L c ax tlast tcurrent i ps s = Inr s"
  using assms
proof (induction ps arbitrary: i)
  case Nil
  then show ?case by simp
next
  case (Cons p ps)
  then show ?case by (simp add: err_bind_def rd_def Let_def)
qed

lemma hd_join [simp]: "hd (join (a # as) b) = a"
  by (simp add: join_def)

lemma refine_root_bracket:
  assumes "root_in_bracket L" and "tlast \<le> tcurrent"
    and "refine_root L d ax atol m rootfun tlast tcurrent fa fb = Inr (troot, ykeep, m')"
  shows "tlast \<le> troot \<and> troot \<le> tcurrent"
proof -
  from assms(3) obtain lo hi where
    r: "toms748_solve L rootfun tlast tcurrent fa fb (roottol atol) m = Inr ((lo, hi), m')"
    and t: "troot = lo \<or> troot = hi"
    by (auto simp: refine_root_def err_bind_def Let_def split: sum.splits if_splits prod.splits)
  from assms(1,2) r have "tlast \<le> lo \<and> lo \<le> tcurrent \<and> tlast \<le> hi \<and> hi \<le> tcurrent"
    unfolding root_in_bracket_def by blast
  with t show ?thesis by auto
qed

lemma vpar_loop_shape:
  assumes "vpar_loop L c ax tlast tcurrent i vs s = Inr s'"
  shows "\<exists>nr nh st m. s' = s\<lparr>v_res := v_res s @ nr, v_res_phi_hits := v_res_phi_hits s @ nh,
                            v_stop := st, v_rootmaxit := m\<rparr>
           \<and> (\<not> arg_vpars_stop c \<longrightarrow> nr = [] \<and> st = v_stop s)
           \<and> (root_in_bracket L \<longrightarrow> tlast \<le> tcurrent \<longrightarrow>
                (\<forall>e \<in> set nr \<union> set nh. tlast \<le> hd e \<and> hd e \<le> tcurrent))"
  using assms
proof (induction vs arbitrary: i s)
  case Nil
  then have "s' = s\<lparr>v_res := v_res s @ [], v_res_phi_hits := v_res_phi_hits s @ [], v_stop := v_stop s,
                   v_rootmaxit := v_rootmaxit s\<rparr>"
    by simp
  then show ?case by (intro exI [of _ "[]"] exI [of _ "v_stop s"] exI [of _ "v_rootmaxit s"]) simp
next
  case (Cons v vs)
  show ?case
  proof (cases "vpar_crossed (v_vpar_last s) (v_vpar_current s) v")
    case False
    with Cons.prems have "vpar_loop L c ax tlast tcurrent (Suc i) vs s = Inr s'" by simp
    from Cons.IH [OF this] show ?thesis .
  next
    case True
    with Cons.prems obtain troot ykeep m1 where
      r: "refine_root L (v_dense s) ax (arg_abstol c) (v_rootmaxit s)
             (\<lambda>t. err_bind (rd (calc_state L (v_dense s) t) 3) (\<lambda>temp3. Inr (temp3 - v)))
             tlast tcurrent (v_vpar_last s - v) (v_vpar_current s - v) = Inr (troot, ykeep, m1)"
      by (auto simp: err_bind_def split: sum.splits)
    have br: "root_in_bracket L \<longrightarrow> tlast \<le> tcurrent \<longrightarrow> tlast \<le> troot \<and> troot \<le> tcurrent"
      using refine_root_bracket [OF _ _ r] by blast
    define h where "h = join [troot, real i + real (length (arg_phis c))] ykeep"
    have hh: "hd h = troot" by (simp add: h_def)
    show ?thesis
    proof (cases "arg_vpars_stop c")
      case True
      with Cons.prems \<open>vpar_crossed _ _ _\<close> r
      have "s' = s\<lparr>v_res := v_res s @ [join [troot] ykeep],
                  v_res_phi_hits := v_res_phi_hits s @ [h], v_stop := True, v_rootmaxit := m1\<rparr>"
        by (auto simp add: err_bind_def Let_def h_def intro!: solve_vars.equality)
      with True br hh show ?thesis
        by (intro exI [of _ "[join [troot] ykeep]"] exI [of _ "[h]"] exI [of _ True] exI [of _ m1]) simp
    next
      case False
      let ?s1 = "s\<lparr>v_rootmaxit := m1, v_res_phi_hits := v_res_phi_hits s @ [h]\<rparr>"
      from False Cons.prems \<open>vpar_crossed _ _ _\<close> r
      have "vpar_loop L c ax tlast tcurrent (Suc i) vs ?s1 = Inr s'"
        by (simp add: err_bind_def Let_def h_def)
      from Cons.IH [OF this] obtain nr nh st m where
        1: "s' = ?s1\<lparr>v_res := v_res ?s1 @ nr, v_res_phi_hits := v_res_phi_hits ?s1 @ nh, v_stop := st,
                     v_rootmaxit := m\<rparr>"
        and 2: "\<not> arg_vpars_stop c \<longrightarrow> nr = [] \<and> st = v_stop ?s1"
        and 3: "root_in_bracket L \<longrightarrow> tlast \<le> tcurrent \<longrightarrow>
                (\<forall>e \<in> set nr \<union> set nh. tlast \<le> hd e \<and> hd e \<le> tcurrent)"
        by blast
      from 1 have "s' = s\<lparr>v_res := v_res s @ nr, v_res_phi_hits := v_res_phi_hits s @ (h # nh), v_stop := st,
                        v_rootmaxit := m\<rparr>"
        by (auto intro!: solve_vars.equality)
      moreover from 2 have "\<not> arg_vpars_stop c \<longrightarrow> nr = [] \<and> st = v_stop s" by simp
      moreover from 3 br hh have "root_in_bracket L \<longrightarrow> tlast \<le> tcurrent \<longrightarrow>
                (\<forall>e \<in> set nr \<union> set (h # nh). tlast \<le> hd e \<and> hd e \<le> tcurrent)"
        by auto
      ultimately show ?thesis by blast
    qed
  qed
qed

lemma phi_loop_shape:
  assumes "phi_loop L c ax tlast tcurrent i ps s = Inr s'"
  shows "\<exists>nr nh st m. s' = s\<lparr>v_res := v_res s @ nr, v_res_phi_hits := v_res_phi_hits s @ nh,
                            v_stop := st, v_rootmaxit := m\<rparr>
           \<and> (\<not> arg_phis_stop c \<longrightarrow> nr = [] \<and> st = v_stop s)
           \<and> (root_in_bracket L \<longrightarrow> tlast \<le> tcurrent \<longrightarrow>
                (\<forall>e \<in> set nr \<union> set nh. tlast \<le> hd e \<and> hd e \<le> tcurrent))"
  using assms
proof (induction ps arbitrary: i s)
  case Nil
  then have "s' = s\<lparr>v_res := v_res s @ [], v_res_phi_hits := v_res_phi_hits s @ [], v_stop := v_stop s,
                   v_rootmaxit := v_rootmaxit s\<rparr>"
    by simp
  then show ?case by (intro exI [of _ "[]"] exI [of _ "v_stop s"] exI [of _ "v_rootmaxit s"]) simp
next
  case (Cons p ps)
  from Cons.prems obtain omega where om: "rd (arg_omegas c) i = Inr omega"
    by (auto simp: err_bind_def split: sum.splits)
  define phase_last where "phase_last = v_phi_last s - omega * v_t_last s"
  define phase_current where "phase_current = v_phi_current s - omega * v_t_current s"
  define crossed where "crossed \<longleftrightarrow> v_t_last s \<noteq> 0
     \<and> \<lfloor>(phase_last - p) / (2 * pi)\<rfloor> \<noteq> \<lfloor>(phase_current - p) / (2 * pi)\<rfloor>"
  show ?case
  proof (cases crossed)
    case False
    with Cons.prems om have "phi_loop L c ax tlast tcurrent (Suc i) ps s = Inr s'"
      by (auto simp add: err_bind_def Let_def crossed_def phase_last_def phase_current_def)
    from Cons.IH [OF this] show ?thesis .
  next
    case True
    with Cons.prems om obtain troot ykeep m1 rootfun fa fb where
      r: "refine_root L (v_dense s) ax (arg_abstol c) (v_rootmaxit s) rootfun tlast tcurrent fa fb
            = Inr (troot, ykeep, m1)"
      and k: "(if arg_phis_stop c
               then Inr (s\<lparr>v_rootmaxit := m1,
                          v_res_phi_hits := v_res_phi_hits s @ [join [troot, real i] ykeep],
                          v_res := v_res s @ [join [troot] ykeep], v_stop := True\<rparr>)
               else phi_loop L c ax tlast tcurrent (Suc i) ps
                      (s\<lparr>v_rootmaxit := m1,
                         v_res_phi_hits := v_res_phi_hits s @ [join [troot, real i] ykeep]\<rparr>)) = Inr s'"
      by (auto simp add: err_bind_def Let_def crossed_def phase_last_def phase_current_def
            split: sum.splits if_splits)
    have br: "root_in_bracket L \<longrightarrow> tlast \<le> tcurrent \<longrightarrow> tlast \<le> troot \<and> troot \<le> tcurrent"
      using refine_root_bracket [OF _ _ r] by blast
    define h where "h = join [troot, real i] ykeep"
    have hh: "hd h = troot" by (simp add: h_def)
    show ?thesis
    proof (cases "arg_phis_stop c")
      case True
      with k have "s' = s\<lparr>v_res := v_res s @ [join [troot] ykeep],
                  v_res_phi_hits := v_res_phi_hits s @ [h], v_stop := True, v_rootmaxit := m1\<rparr>"
        by (auto simp add: h_def intro!: solve_vars.equality)
      with True br hh show ?thesis
        by (intro exI [of _ "[join [troot] ykeep]"] exI [of _ "[h]"] exI [of _ True] exI [of _ m1]) simp
    next
      case False
      let ?s1 = "s\<lparr>v_rootmaxit := m1, v_res_phi_hits := v_res_phi_hits s @ [h]\<rparr>"
      from False k have "phi_loop L c ax tlast tcurrent (Suc i) ps ?s1 = Inr s'"
        by (simp add: h_def)
      from Cons.IH [OF this] obtain nr nh st m where
        1: "s' = ?s1\<lparr>v_res := v_res ?s1 @ nr, v_res_phi_hits := v_res_phi_hits ?s1 @ nh, v_stop := st,
                     v_rootmaxit := m\<rparr>"
        and 2: "\<not> arg_phis_stop c \<longrightarrow> nr = [] \<and> st = v_stop ?s1"
        and 3: "root_in_bracket L \<longrightarrow> tlast \<le> tcurrent \<longrightarrow>
                (\<forall>e \<in> set nr \<union> set nh. tlast \<le> hd e \<and> hd e \<le> tcurrent)"
        by blast
      from 1 have "s' = s\<lparr>v_res := v_res s @ nr, v_res_phi_hits := v_res_phi_hits s @ (h # nh), v_stop := st,
                        v_rootmaxit := m\<rparr>"
        by (auto intro!: solve_vars.equality)
      moreover from 2 have "\<not> arg_phis_stop c \<longrightarrow> nr = [] \<and> st = v_stop s" by simp
      moreover from 3 br hh have "root_in_bracket L \<longrightarrow> tlast \<le> tcurrent \<longrightarrow>
                (\<forall>e \<in> set nr \<union> set (h # nh). tlast \<le> hd e \<and> hd e \<le> tcurrent)"
        by auto
      ultimately show ?thesis by blast
    qed
  qed
qed

lemma stopping_loop_shape:
  assumes "stopping_loop c ax i crits s = Inr s'"
  shows "s' = s \<or> (\<exists>ykeep k. s' = s\<lparr>v_stop := True,
                       v_res := v_res s @ [join [v_t s] ykeep],
                       v_res_phi_hits := v_res_phi_hits s @ [join [v_t s, k] ykeep]\<rparr>)"
  using assms
proof (induction crits arbitrary: i)
  case Nil
  then show ?case by simp
next
  case (Cons a crits)
  then show ?case
    by (auto simp: err_bind_def split: sum.splits option.splits if_splits)
qed

subsection \<open>One pass of the loop\<close>

lemma err_bind_Inr: "err_bind m f = Inr y \<longleftrightarrow> (\<exists>x. m = Inr x \<and> f x = Inr y)"
  by (cases m) (simp_all add: err_bind_def)

lemma solve_step_stages:
  assumes "solve_step L r c s = Inr s'"
  obtains ykeep0 d tlast tcurrent pc vc tc s3 s5 s6 s7 where
    "do_step L (v_dense s) r = Inr (d, tlast, tcurrent)"
    "s3 = s\<lparr>v_res := v_res s @ (if \<not> arg_forget_exact_path c \<or> v_t s = 0 then [join [v_t s] ykeep0] else []),
            v_dense := d, v_iter := v_iter s + 1, v_t := current_time L d, v_y := current_state L d,
            v_phi_current := pc, v_vpar_current := vc, v_t_current := tc\<rparr>"
    "vc = (if arg_flux c then current_state L d ! 3 else v_vpar_current s)"
    "vpar_loop L c (axis r) tlast tcurrent 0 (arg_vpars c) (s3\<lparr>v_dt := tcurrent - tlast\<rparr>) = Inr s5"
    "phi_loop L c (axis r) tlast tcurrent 0 (arg_phis c) s5 = Inr s6"
    "stopping_loop c (axis r) 0 (arg_stopping_criteria c) s6 = Inr s7"
    "s' = s7\<lparr>v_t_last := v_t_current s7, v_phi_last := v_phi_current s7,
             v_vpar_last := v_vpar_current s7\<rparr>"
    "\<not> arg_forget_exact_path c \<or> v_t s = 0 \<longrightarrow> canon (axis r) (v_y s) = Inr ykeep0"
proof -
  from assms obtain s1 where
    a: "(if \<not> arg_forget_exact_path c \<or> v_t s = 0
         then err_bind (canon (axis r) (v_y s)) (\<lambda>ykeep. Inr (s\<lparr>v_res := v_res s @ [join [v_t s] ykeep]\<rparr>))
         else Inr s) = Inr s1"
    and b: "err_bind (do_step L (v_dense s1) r) (\<lambda>(d, tlast, tcurrent).
       let s2 = s1\<lparr>v_dense := d, v_iter := v_iter s1 + 1,
                   v_t := current_time L d, v_y := current_state L d\<rparr>
       in err_bind
            (if arg_flux c
             then err_bind (rd (v_y s2) 2) (\<lambda>y2. err_bind (rd (v_y s2) 3) (\<lambda>y3.
                    Inr (s2\<lparr>v_t_current := v_t s2, v_phi_current := y2, v_vpar_current := y3\<rparr>)))
             else err_bind (rd (v_y s2) 0) (\<lambda>y0. err_bind (rd (v_y s2) 1) (\<lambda>y1.
                    Inr (s2\<lparr>v_phi_current := get_phi y0 y1 (v_phi_last s2)\<rparr>)))) (\<lambda>s3.
          let s4 = s3\<lparr>v_dt := tcurrent - tlast\<rparr>
          in err_bind (vpar_loop L c (axis r) tlast tcurrent 0 (arg_vpars c) s4) (\<lambda>s5.
             err_bind (phi_loop L c (axis r) tlast tcurrent 0 (arg_phis c) s5) (\<lambda>s6.
             err_bind (stopping_loop c (axis r) 0 (arg_stopping_criteria c) s6) (\<lambda>s7.
               Inr (s7\<lparr>v_t_last := v_t_current s7,
                       v_phi_last := v_phi_current s7,
                       v_vpar_last := v_vpar_current s7\<rparr>)))))) = Inr s'"
    unfolding solve_step_def err_bind_Inr [of "if _ then _ else _"] by blast
  from a obtain ykeep0 where s1: "s1 = s\<lparr>v_res := v_res s @
      (if \<not> arg_forget_exact_path c \<or> v_t s = 0 then [join [v_t s] ykeep0] else [])\<rparr>"
    and k0: "\<not> arg_forget_exact_path c \<or> v_t s = 0 \<longrightarrow> canon (axis r) (v_y s) = Inr ykeep0"
    by (auto simp: err_bind_Inr split: if_splits)
  have ds: "v_dense s1 = v_dense s" by (simp add: s1)
  from b obtain d tlast tcurrent where
    st: "do_step L (v_dense s) r = Inr (d, tlast, tcurrent)"
    and b2: "(let s2 = s1\<lparr>v_dense := d, v_iter := v_iter s1 + 1,
                   v_t := current_time L d, v_y := current_state L d\<rparr>
       in err_bind
            (if arg_flux c
             then err_bind (rd (v_y s2) 2) (\<lambda>y2. err_bind (rd (v_y s2) 3) (\<lambda>y3.
                    Inr (s2\<lparr>v_t_current := v_t s2, v_phi_current := y2, v_vpar_current := y3\<rparr>)))
             else err_bind (rd (v_y s2) 0) (\<lambda>y0. err_bind (rd (v_y s2) 1) (\<lambda>y1.
                    Inr (s2\<lparr>v_phi_current := get_phi y0 y1 (v_phi_last s2)\<rparr>)))) (\<lambda>s3.
          let s4 = s3\<lparr>v_dt := tcurrent - tlast\<rparr>
          in err_bind (vpar_loop L c (axis r) tlast tcurrent 0 (arg_vpars c) s4) (\<lambda>s5.
             err_bind (phi_loop L c (axis r) tlast tcurrent 0 (arg_phis c) s5) (\<lambda>s6.
             err_bind (stopping_loop c (axis r) 0 (arg_stopping_criteria c) s6) (\<lambda>s7.
               Inr (s7\<lparr>v_t_last := v_t_current s7,
                       v_phi_last := v_phi_current s7,
                       v_vpar_last := v_vpar_current s7\<rparr>)))))) = Inr s'"
    unfolding err_bind_Inr [of "do_step _ _ _"] ds by (auto split: prod.splits)
  define s2 where "s2 = s1\<lparr>v_dense := d, v_iter := v_iter s1 + 1,
                   v_t := current_time L d, v_y := current_state L d\<rparr>"
  from b2 obtain s3 s5 s6 s7 where
    c3: "(if arg_flux c
             then err_bind (rd (v_y s2) 2) (\<lambda>y2. err_bind (rd (v_y s2) 3) (\<lambda>y3.
                    Inr (s2\<lparr>v_t_current := v_t s2, v_phi_current := y2, v_vpar_current := y3\<rparr>)))
             else err_bind (rd (v_y s2) 0) (\<lambda>y0. err_bind (rd (v_y s2) 1) (\<lambda>y1.
                    Inr (s2\<lparr>v_phi_current := get_phi y0 y1 (v_phi_last s2)\<rparr>)))) = Inr s3"
    and c5: "vpar_loop L c (axis r) tlast tcurrent 0 (arg_vpars c) (s3\<lparr>v_dt := tcurrent - tlast\<rparr>) = Inr s5"
    and c6: "phi_loop L c (axis r) tlast tcurrent 0 (arg_phis c) s5 = Inr s6"
    and c7: "stopping_loop c (axis r) 0 (arg_stopping_criteria c) s6 = Inr s7"
    and c8: "s' = s7\<lparr>v_t_last := v_t_current s7, v_phi_last := v_phi_current s7,
             v_vpar_last := v_vpar_current s7\<rparr>"
    unfolding Let_def s2_def [symmetric]
      err_bind_Inr [of "if _ then _ else _"]
      err_bind_Inr [of "vpar_loop _ _ _ _ _ _ _ _"]
      err_bind_Inr [of "phi_loop _ _ _ _ _ _ _ _"]
      err_bind_Inr [of "stopping_loop _ _ _ _ _"]
    by auto
  from c3 have "s3 = s2\<lparr>v_phi_current := v_phi_current s3, v_vpar_current := v_vpar_current s3,
            v_t_current := v_t_current s3\<rparr>"
    and vc: "v_vpar_current s3 = (if arg_flux c then current_state L d ! 3 else v_vpar_current s)"
    by (auto simp: err_bind_Inr rd_def s2_def s1 split: if_splits)
  then obtain pc vc tc where "s3 = s2\<lparr>v_phi_current := pc, v_vpar_current := vc, v_t_current := tc\<rparr>"
    and vc': "vc = (if arg_flux c then current_state L d ! 3 else v_vpar_current s)"
    by blast
  then have "s3 = s\<lparr>v_res := v_res s @ (if \<not> arg_forget_exact_path c \<or> v_t s = 0 then [join [v_t s] ykeep0] else []),
            v_dense := d, v_iter := v_iter s + 1, v_t := current_time L d, v_y := current_state L d,
            v_phi_current := pc, v_vpar_current := vc, v_t_current := tc\<rparr>"
    unfolding s2_def s1 by (simp)
  from that [OF st this vc' c5 c6 c7 c8 k0] show thesis .
qed

lemma solve_step_facts:
  assumes "solve_step L r c s = Inr s'"
  obtains d tlast tcurrent pre nr nh where
    "do_step L (v_dense s) r = Inr (d, tlast, tcurrent)"
    "v_dense s' = d" "v_t s' = current_time L d"
    "v_res s' = v_res s @ pre @ nr" "v_res_phi_hits s' = v_res_phi_hits s @ nh"
    "\<forall>e\<in>set pre. hd e = v_t s" "length pre \<le> 1"
    "arg_forget_exact_path c \<and> v_t s \<noteq> 0 \<longrightarrow> pre = []"
    "root_in_bracket L \<and> tlast \<le> tcurrent \<and> current_time L d = tcurrent
       \<longrightarrow> (\<forall>e\<in>set nr \<union> set nh. tlast \<le> hd e \<and> hd e \<le> tcurrent)"
    "\<not> arg_vpars_stop c \<and> \<not> arg_phis_stop c
       \<longrightarrow> (nr = [] \<and> v_stop s' = v_stop s) \<or> (v_stop s' \<and> (\<exists>yk. nr = [join [current_time L d] yk]))"
proof -
  obtain ykeep0 d tlast tcurrent pc vc tc s3 s5 s6 s7 where
    st: "do_step L (v_dense s) r = Inr (d, tlast, tcurrent)"
    and s3: "s3 = s\<lparr>v_res := v_res s @ (if \<not> arg_forget_exact_path c \<or> v_t s = 0 then [join [v_t s] ykeep0] else []),
            v_dense := d, v_iter := v_iter s + 1, v_t := current_time L d, v_y := current_state L d,
            v_phi_current := pc, v_vpar_current := vc, v_t_current := tc\<rparr>"
    and vcdef: "vc = (if arg_flux c then current_state L d ! 3 else v_vpar_current s)"
    and c5: "vpar_loop L c (axis r) tlast tcurrent 0 (arg_vpars c) (s3\<lparr>v_dt := tcurrent - tlast\<rparr>) = Inr s5"
    and c6: "phi_loop L c (axis r) tlast tcurrent 0 (arg_phis c) s5 = Inr s6"
    and c7: "stopping_loop c (axis r) 0 (arg_stopping_criteria c) s6 = Inr s7"
    and c8: "s' = s7\<lparr>v_t_last := v_t_current s7, v_phi_last := v_phi_current s7,
             v_vpar_last := v_vpar_current s7\<rparr>"
    and k0: "\<not> arg_forget_exact_path c \<or> v_t s = 0 \<longrightarrow> canon (axis r) (v_y s) = Inr ykeep0"
    by (rule solve_step_stages [OF assms])
  define pre where "pre = (if \<not> arg_forget_exact_path c \<or> v_t s = 0 then [join [v_t s] ykeep0] else [])"
  let ?s4 = "s3\<lparr>v_dt := tcurrent - tlast\<rparr>"
  have s4: "v_res s3 = v_res s @ pre" "v_res_phi_hits s3 = v_res_phi_hits s"
    "v_dense s3 = d" "v_t s3 = current_time L d" "v_stop s3 = v_stop s"
    by (simp_all add: s3 pre_def)
  from vpar_loop_shape [OF c5] obtain nr1 nh1 st1 m1 where
    e5: "s5 = ?s4\<lparr>v_res := v_res ?s4 @ nr1, v_res_phi_hits := v_res_phi_hits ?s4 @ nh1, v_stop := st1,
                  v_rootmaxit := m1\<rparr>"
    and f5: "\<not> arg_vpars_stop c \<longrightarrow> nr1 = [] \<and> st1 = v_stop ?s4"
    and g5: "root_in_bracket L \<longrightarrow> tlast \<le> tcurrent \<longrightarrow>
                (\<forall>e \<in> set nr1 \<union> set nh1. tlast \<le> hd e \<and> hd e \<le> tcurrent)"
    by blast
  have s5: "v_res s5 = v_res s @ pre @ nr1" "v_res_phi_hits s5 = v_res_phi_hits s @ nh1"
    "v_dense s5 = d" "v_t s5 = current_time L d" "v_stop s5 = st1"
    by (simp_all add: e5 s4)
  from phi_loop_shape [OF c6] obtain nr2 nh2 st2 m2 where
    e6: "s6 = s5\<lparr>v_res := v_res s5 @ nr2, v_res_phi_hits := v_res_phi_hits s5 @ nh2, v_stop := st2,
                 v_rootmaxit := m2\<rparr>"
    and f6: "\<not> arg_phis_stop c \<longrightarrow> nr2 = [] \<and> st2 = v_stop s5"
    and g6: "root_in_bracket L \<longrightarrow> tlast \<le> tcurrent \<longrightarrow>
                (\<forall>e \<in> set nr2 \<union> set nh2. tlast \<le> hd e \<and> hd e \<le> tcurrent)"
    by blast
  have s6: "v_res s6 = v_res s @ pre @ nr1 @ nr2" "v_res_phi_hits s6 = v_res_phi_hits s @ nh1 @ nh2"
    "v_dense s6 = d" "v_t s6 = current_time L d" "v_stop s6 = st2"
    by (simp_all add: e6 s5)
  from stopping_loop_shape [OF c7] obtain nr3 nh3 where
    s7: "v_res s7 = v_res s6 @ nr3" "v_res_phi_hits s7 = v_res_phi_hits s6 @ nh3"
      "v_dense s7 = v_dense s6" "v_t s7 = v_t s6"
    and f7: "(nr3 = [] \<and> nh3 = [] \<and> v_stop s7 = v_stop s6)
         \<or> (v_stop s7 \<and> (\<exists>yk k. nr3 = [join [v_t s6] yk] \<and> nh3 = [join [v_t s6, k] yk]))"
  proof (elim disjE exE)
    assume "s7 = s6"
    then show thesis by (intro that [of "[]" "[]"]) simp_all
  next
    fix ykeep k
    assume "s7 = s6\<lparr>v_stop := True, v_res := v_res s6 @ [join [v_t s6] ykeep],
                       v_res_phi_hits := v_res_phi_hits s6 @ [join [v_t s6, k] ykeep]\<rparr>"
    then show thesis
      by (intro that [of "[join [v_t s6] ykeep]" "[join [v_t s6, k] ykeep]"]) auto
  qed
  have g7: "\<forall>e \<in> set nr3 \<union> set nh3. hd e = current_time L d"
    using f7 s6(4) by auto
  show thesis
  proof (rule that [of d tlast tcurrent pre "nr1 @ nr2 @ nr3" "nh1 @ nh2 @ nh3"])
    show "do_step L (v_dense s) r = Inr (d, tlast, tcurrent)" by (rule st)
    show "v_dense s' = d" by (simp add: c8 s7 s6)
    show "v_t s' = current_time L d" by (simp add: c8 s7 s6)
    show "v_res s' = v_res s @ pre @ nr1 @ nr2 @ nr3" by (simp add: c8 s7 s6)
    show "v_res_phi_hits s' = v_res_phi_hits s @ nh1 @ nh2 @ nh3" by (simp add: c8 s7 s6)
    show "\<forall>e\<in>set pre. hd e = v_t s" by (simp add: pre_def)
    show "length pre \<le> 1" by (simp add: pre_def)
    show "arg_forget_exact_path c \<and> v_t s \<noteq> 0 \<longrightarrow> pre = []" by (simp add: pre_def)
    show "root_in_bracket L \<and> tlast \<le> tcurrent \<and> current_time L d = tcurrent
       \<longrightarrow> (\<forall>e\<in>set (nr1 @ nr2 @ nr3) \<union> set (nh1 @ nh2 @ nh3). tlast \<le> hd e \<and> hd e \<le> tcurrent)"
      using g5 g6 g7 by auto
    show "\<not> arg_vpars_stop c \<and> \<not> arg_phis_stop c
       \<longrightarrow> (nr1 @ nr2 @ nr3 = [] \<and> v_stop s' = v_stop s)
           \<or> (v_stop s' \<and> (\<exists>yk. nr1 @ nr2 @ nr3 = [join [current_time L d] yk]))"
      using f5 f6 f7 s4(5) s5(5) s6(4,5) by (auto simp: c8)
  qed
qed

subsection \<open>The demonstration libraries meet the assumptions\<close>

lemma demo_stepper_starts: "stepper_starts demo_lib"
  by (simp add: stepper_starts_def demo_lib_def)

lemma demo_stepper_advances: "stepper_advances demo_lib r"
  by (auto simp: stepper_advances_def demo_lib_def split: sum.splits)

lemma secant_in_bracket:
  fixes a b fa fb :: real
  assumes "a \<le> b" and "\<not> fa * fb > 0" and "fa \<noteq> fb"
  shows "a \<le> a - fa * (b - a) / (fb - fa)" and "a - fa * (b - a) / (fb - fa) \<le> b"
proof -
  define lam where "lam = fa / (fa - fb)"
  have eq: "a - fa * (b - a) / (fb - fa) = a + lam * (b - a)"
    using assms(3) by (simp add: lam_def field_simps)
  have "0 \<le> lam \<and> lam \<le> 1"
  proof (cases "fa < fb")
    case True
    have "fa \<le> 0"
    proof (rule ccontr)
      assume "\<not> fa \<le> 0"
      then have "0 < fa" "0 < fb" using True by simp_all
      then have "0 < fa * fb" by simp
      with assms(2) show False by simp
    qed
    moreover have "0 \<le> fb"
    proof (rule ccontr)
      assume "\<not> 0 \<le> fb"
      then have "fb < 0" "fa < 0" using True by simp_all
      then have "0 < fa * fb" by (simp add: mult_neg_neg)
      with assms(2) show False by simp
    qed
    ultimately show ?thesis using True by (simp add: lam_def field_simps)
  next
    case False
    then have lt: "fb < fa" using assms(3) by simp
    have "0 \<le> fa"
    proof (rule ccontr)
      assume "\<not> 0 \<le> fa"
      then have "fa < 0" "fb < 0" using lt by simp_all
      then have "0 < fa * fb" by (simp add: mult_neg_neg)
      with assms(2) show False by simp
    qed
    moreover have "fb \<le> 0"
    proof (rule ccontr)
      assume "\<not> fb \<le> 0"
      then have "0 < fb" "0 < fa" using lt by simp_all
      then have "0 < fa * fb" by simp
      with assms(2) show False by simp
    qed
    ultimately show ?thesis using lt by (simp add: lam_def field_simps)
  qed
  then have l0: "0 \<le> lam" and l1: "lam \<le> 1" by simp_all
  have ba: "0 \<le> b - a" using assms(1) by simp
  have "0 \<le> lam * (b - a)" using l0 ba by (rule mult_nonneg_nonneg)
  moreover have "lam * (b - a) \<le> 1 * (b - a)" using l1 ba by (rule mult_right_mono)
  ultimately show "a \<le> a - fa * (b - a) / (fb - fa)" and "a - fa * (b - a) / (fb - fa) \<le> b"
    unfolding eq by simp_all
qed

lemma demo_root_in_bracket: "root_in_bracket demo_lib"
proof -
  have "a \<le> a - fa * (b - a) / (fb - fa) \<and> a - fa * (b - a) / (fb - fa) \<le> b"
    if "a \<le> b" "\<not> fa * fb > 0" "fa \<noteq> 0" for a b fa fb :: real
  proof -
    from that(2,3) have "fa \<noteq> fb"
      by (metis mult_eq_0_iff not_less_iff_gr_or_eq zero_less_mult_iff linorder_neqE_linordered_idom
          mult_pos_pos mult_neg_neg)
    from secant_in_bracket [OF that(1,2) this] show ?thesis by simp
  qed
  then show ?thesis
    unfolding root_in_bracket_def demo_lib_def
    by (auto split: if_splits)
qed

lemmas demo_run_simps =
  solve_def solve_init_def solve_finish_def solve_step_def solve_brackets_def
  demo_lib_def demo_rhs_def junk_def always_stop_def never_stop_def
  err_bind_def rd_def join_def canon_def refine_root_def vpar_crossed_def sign3_def Let_def

subsection \<open>Event times\<close>

lemma loop_events_in_brackets:
  assumes adv: "stepper_advances L r" and rib: "root_in_bracket L"
    and run: "solve_loop fuel L r c s = Some (Inr s')"
    and t0: "0 \<le> current_time L (v_dense s)"
  shows "\<exists>nh. v_res_phi_hits s' = v_res_phi_hits s @ nh
           \<and> (\<forall>e\<in>set nh. \<exists>(a, b)\<in>set (loop_brackets fuel L r c s). 0 \<le> a \<and> a \<le> hd e \<and> hd e \<le> b)"
  using run t0
proof (induction fuel arbitrary: s)
  case 0
  then show ?case by simp
next
  case (Suc fuel)
  from Suc.prems(1) obtain s1 where step: "solve_step L r c s = Inr s1"
    by (auto split: sum.splits)
  from solve_step_facts [OF step] obtain d tlast tcurrent pre nr nh where
    ds: "do_step L (v_dense s) r = Inr (d, tlast, tcurrent)"
    and d1: "v_dense s1 = d"
    and h1: "v_res_phi_hits s1 = v_res_phi_hits s @ nh"
    and br: "root_in_bracket L \<and> tlast \<le> tcurrent \<and> current_time L d = tcurrent
       \<longrightarrow> (\<forall>e\<in>set nr \<union> set nh. tlast \<le> hd e \<and> hd e \<le> tcurrent)"
    by metis
  from adv ds have tt: "tlast = current_time L (v_dense s)" "tlast < tcurrent" "current_time L d = tcurrent"
    unfolding stepper_advances_def by blast+
  with br rib have nh: "\<forall>e\<in>set nh. tlast \<le> hd e \<and> hd e \<le> tcurrent" by simp
  have tl0: "0 \<le> tlast" using tt(1) Suc.prems(2) by simp
  show ?case
  proof (cases "v_t s1 < arg_tmax c \<and> \<not> v_stop s1")
    case True
    with Suc.prems(1) step have run1: "solve_loop fuel L r c s1 = Some (Inr s')" by simp
    have "0 \<le> current_time L (v_dense s1)" using d1 tt tl0 by simp
    from Suc.IH [OF run1 this] obtain nh' where
      a: "v_res_phi_hits s' = v_res_phi_hits s1 @ nh'"
      and b: "\<forall>e\<in>set nh'. \<exists>(a, b)\<in>set (loop_brackets fuel L r c s1). 0 \<le> a \<and> a \<le> hd e \<and> hd e \<le> b"
      by blast
    have lb: "loop_brackets (Suc fuel) L r c s = (tlast, tcurrent) # loop_brackets fuel L r c s1"
      using ds step True by simp
    have "v_res_phi_hits s' = v_res_phi_hits s @ (nh @ nh')" using a h1 by simp
    moreover have "\<forall>e\<in>set (nh @ nh'). \<exists>(a, b)\<in>set (loop_brackets (Suc fuel) L r c s).
        0 \<le> a \<and> a \<le> hd e \<and> hd e \<le> b"
      unfolding lb using nh b tl0 by auto
    ultimately show ?thesis by blast
  next
    case False
    with Suc.prems(1) step have "s' = s1" by auto
    have lb: "loop_brackets (Suc fuel) L r c s = [(tlast, tcurrent)]"
      using ds step False by auto
    have "\<forall>e\<in>set nh. \<exists>(a, b)\<in>set (loop_brackets (Suc fuel) L r c s).
        0 \<le> a \<and> a \<le> hd e \<and> hd e \<le> b"
      unfolding lb using nh tl0 by auto
    with h1 \<open>s' = s1\<close> show ?thesis by blast
  qed
qed

lemma solve_init_facts:
  assumes "solve_init L jk y dt dtmax abstol reltol fl = Inr s0"
  shows "v_res s0 = []" "v_res_phi_hits s0 = []" "v_t s0 = 0" "\<not> v_stop s0" "v_t_last s0 = 0"
    "v_dense s0 = initialize L (make_dense_output L abstol reltol dtmax) y 0 dt"
    "v_y s0 = y" "v_iter s0 = 0"
  using assms
  by (auto simp: solve_init_def Let_def err_bind_Inr split: if_splits)

text \<open>
  Claim C3, amended. Every event record of a returned trace has a time that is at least 0
  and lies within the bracket \<open>[tlast, tcurrent]\<close> of a step the run completed. The time
  need not be at most \<^verbatim>\<open>tmax\<close>: the stepper does not know \<^verbatim>\<open>tmax\<close>, so the last step may
  end after it, and an event found in that step can lie after \<^verbatim>\<open>tmax\<close>.
\<close>

theorem event_times_within_step_brackets:
  assumes "stepper_starts L" and "stepper_advances L r" and "root_in_bracket L"
    and "solve L jk fuel r y tmax dt dtmax abstol reltol phis omegas stopping_criteria vpars
           phis_stop vpars_stop fl fg = Some (Inr (traj, events))"
    and "e \<in> set events"
  shows "\<exists>(a, b)\<in>set (solve_brackets L jk fuel r y tmax dt dtmax abstol reltol phis omegas
                         stopping_criteria vpars phis_stop vpars_stop fl fg).
           0 \<le> a \<and> a \<le> hd e \<and> hd e \<le> b"
proof -
  define c where "c = \<lparr>arg_tmax = tmax, arg_abstol = abstol, arg_phis = phis, arg_omegas = omegas,
               arg_stopping_criteria = stopping_criteria, arg_vpars = vpars,
               arg_phis_stop = phis_stop, arg_vpars_stop = vpars_stop, arg_flux = fl,
               arg_forget_exact_path = fg\<rparr>"
  from assms(4) obtain s0 s where
    i: "solve_init L jk y dt dtmax abstol reltol fl = Inr s0"
    and l: "solve_loop fuel L r c s0 = Some (Inr s)"
    and f: "solve_finish L r tmax s = Inr (traj, events)"
    unfolding solve_def Let_def c_def [symmetric]
    by (auto split: sum.splits option.splits)
  from f have ev: "events = v_res_phi_hits s"
    by (auto simp: solve_finish_def err_bind_Inr split: if_splits)
  have "current_time L (v_dense s0) = 0"
    using assms(1) solve_init_facts(6) [OF i] by (simp add: stepper_starts_def)
  then have "0 \<le> current_time L (v_dense s0)" by simp
  from loop_events_in_brackets [OF assms(2,3) l this] solve_init_facts(2) [OF i]
  have "\<forall>e\<in>set (v_res_phi_hits s). \<exists>(a, b)\<in>set (loop_brackets fuel L r c s0).
          0 \<le> a \<and> a \<le> hd e \<and> hd e \<le> b" by auto
  moreover have "solve_brackets L jk fuel r y tmax dt dtmax abstol reltol phis omegas
                         stopping_criteria vpars phis_stop vpars_stop fl fg = loop_brackets fuel L r c s0"
    unfolding solve_brackets_def Let_def c_def [symmetric] using i by simp
  ultimately show ?thesis using assms(5) ev by simp
qed

lemma demo_run_overshoot:
  "solve demo_lib (junk 0) 3 demo_rhs [1 / 2, 0, 0, 1 / 2] (1 / 4) 1 1 (1 / 100) (1 / 100)
      [] [] [] [0] False False True False
   = Some (Inr ([[0, 1 / 2, 0, 0, 1 / 2], [1 / 4, 1 / 2, 0, 1 / 4, 1 / 4]],
                [[1 / 2, 0, 1 / 2, 0, 1 / 2, 0]]))"
  by (simp add: demo_run_simps numeral_3_eq_3)

lemma demo_brackets_overshoot:
  "solve_brackets demo_lib (junk 0) 3 demo_rhs [1 / 2, 0, 0, 1 / 2] (1 / 4) 1 1 (1 / 100) (1 / 100)
      [] [] [] [0] False False True False = [(0, 1)]"
  by (simp add: demo_run_simps numeral_3_eq_3)

theorem event_times_within_step_brackets_witness:
  "\<exists>(a, b)\<in>set [(0 :: real, 1 :: real)]. 0 \<le> a \<and> a \<le> hd [1 / 2, 0, 1 / 2, 0, 1 / 2, 0 :: real]
       \<and> hd [1 / 2, 0, 1 / 2, 0, 1 / 2, 0 :: real] \<le> b"
  using event_times_within_step_brackets [OF demo_stepper_starts demo_stepper_advances
      demo_root_in_bracket demo_run_overshoot, of "[1 / 2, 0, 1 / 2, 0, 1 / 2, 0]"]
  unfolding demo_brackets_overshoot by simp

text \<open>
  Claim C3 as stated fails. With \<^verbatim>\<open>tmax = 1/4\<close> the first step of the run below covers
  \<open>[0, 1]\<close>; the parallel velocity crosses 0 at \<open>t = 1/2\<close>, and the event is recorded with
  that time, after \<^verbatim>\<open>tmax\<close>.
\<close>

theorem event_time_beyond_tmax_counterexample:
  "solve demo_lib (junk 0) 3 demo_rhs [1 / 2, 0, 0, 1 / 2] (1 / 4) 1 1 (1 / 100) (1 / 100)
      [] [] [] [0] False False True False
   = Some (Inr ([[0, 1 / 2, 0, 0, 1 / 2], [1 / 4, 1 / 2, 0, 1 / 4, 1 / 4]],
                [[1 / 2, 0, 1 / 2, 0, 1 / 2, 0]]))
   \<and> \<not> hd [1 / 2, 0, 1 / 2, 0, 1 / 2, 0 :: real] \<le> 1 / 4"
  using demo_run_overshoot by simp

subsection \<open>Sample times\<close>








text \<open>
  Traces that stop at a crossing are left out of the amended claim: the sample of the stop
  is taken at the refined root, and the root can be the start of the step. In the run below
  the moving plane \<open>\<zeta> - (1 + \<pi>) t = - \<pi>\<close> is crossed at \<open>t = 1\<close>, where the second step
  starts; the sample taken at the start of that step and the sample of the stop both have
  time 1.
\<close>

lemma stop_crossing_at_step_start_repeats_time:
  "solve demo_lib (junk 0) 5 demo_rhs [1 / 2, 0, 0, 1 / 2] 10 1 1 (1 / 100) (1 / 100)
      [- pi] [1 + pi] [] [] True False True False
   = Some (Inr ([[0, 1 / 2, 0, 0, 1 / 2], [1, 1 / 2, 0, 1, - (1 / 2)], [1, 1 / 2, 0, 1, - (1 / 2)]],
                [[1, 0, 1 / 2, 0, 1, - (1 / 2)]]))
   \<and> \<not> sorted_wrt (<) (map hd [[0, 1 / 2, 0, 0, 1 / 2], [1, 1 / 2, 0, 1, - (1 / 2)],
                                 [1, 1 / 2, 0, 1, - (1 / 2) :: real]])"
  by (simp add: demo_run_simps eval_nat_numeral c_round_def)

subsection \<open>A trace with \<^verbatim>\<open>tmax = 0\<close>\<close>

lemma vpar_loop_no_crossing:
  assumes "\<forall>v\<in>set vs. \<not> vpar_crossed (v_vpar_last s) (v_vpar_current s) v"
  shows "vpar_loop L c ax tlast tcurrent i vs s = Inr s"
  using assms by (induction vs arbitrary: i) simp_all

lemma phi_loop_first_step_result:
  assumes "phi_loop L c ax tlast tcurrent i ps s = Inr s'" and "v_t_last s = 0"
  shows "s' = s"
  using assms by (induction ps arbitrary: i) (auto simp: err_bind_Inr Let_def)

lemma stopping_loop_none_fires:
  assumes "stopping_loop c ax i crits s = Inr s'"
    and "\<forall>ykeep f. canon ax (v_y s) = Inr ykeep \<longrightarrow> 4 \<le> length ykeep \<longrightarrow> Some f \<in> set crits \<longrightarrow>
           \<not> f (v_iter s) (v_dt s) (v_t s) (ykeep ! 0) (ykeep ! 1) (ykeep ! 2) (ykeep ! 3)"
  shows "s' = s"
  using assms
proof (induction crits arbitrary: i)
  case Nil
  then show ?case by simp
next
  case (Cons a crits)
  from Cons.prems(2) have tl: "\<forall>ykeep f. canon ax (v_y s) = Inr ykeep \<longrightarrow> 4 \<le> length ykeep \<longrightarrow>
      Some f \<in> set crits \<longrightarrow>
        \<not> f (v_iter s) (v_dt s) (v_t s) (ykeep ! 0) (ykeep ! 1) (ykeep ! 2) (ykeep ! 3)"
    by auto
  from Cons.prems(1) obtain ykeep where k: "canon ax (v_y s) = Inr ykeep"
    and body: "(case a of None \<Rightarrow> stopping_loop c ax (Suc i) crits s
       | Some criterion \<Rightarrow>
           err_bind (rd ykeep 0) (\<lambda>ykeep0. err_bind (rd ykeep 1) (\<lambda>ykeep1.
           err_bind (rd ykeep 2) (\<lambda>ykeep2. err_bind (rd ykeep 3) (\<lambda>ykeep3.
             if criterion (v_iter s) (v_dt s) (v_t s) ykeep0 ykeep1 ykeep2 ykeep3
             then Inr (s\<lparr>v_stop := True,
                         v_res := v_res s @ [join [v_t s] ykeep],
                         v_res_phi_hits := v_res_phi_hits s @ [join [v_t s, - 1 - real i] ykeep]\<rparr>)
             else stopping_loop c ax (Suc i) crits s))))) = Inr s'"
    by (auto simp: err_bind_Inr)
  show ?case
  proof (cases a)
    case None
    with body have "stopping_loop c ax (Suc i) crits s = Inr s'" by simp
    from Cons.IH [OF this tl] show ?thesis .
  next
    case (Some f)
    from body Some have len: "4 \<le> length ykeep"
      by (auto simp: err_bind_Inr rd_def split: if_splits)
    with Cons.prems(2) k Some
    have nf: "\<not> f (v_iter s) (v_dt s) (v_t s) (ykeep ! 0) (ykeep ! 1) (ykeep ! 2) (ykeep ! 3)"
      by simp
    from body Some len nf have "stopping_loop c ax (Suc i) crits s = Inr s'"
      by (auto simp: err_bind_Inr rd_def split: if_splits)
    from Cons.IH [OF this tl] show ?thesis .
  qed
qed

lemma solve_loop_first_pass_ends:
  assumes adv: "stepper_advances L r"
    and t0: "current_time L (v_dense s) = 0" and tm: "arg_tmax c \<le> 0"
  shows "solve_loop (Suc n) L r c s =
           (case solve_step L r c s of Inl e \<Rightarrow> Some (Inl e) | Inr s' \<Rightarrow> Some (Inr s'))"
proof (cases "solve_step L r c s")
  case (Inl e)
  then show ?thesis by simp
next
  case (Inr s1)
  from solve_step_facts [OF Inr] obtain d tlast tcurrent where
    ds: "do_step L (v_dense s) r = Inr (d, tlast, tcurrent)" and t1: "v_t s1 = current_time L d"
    by metis
  from adv ds have "tlast = current_time L (v_dense s)" "tlast < tcurrent" "current_time L d = tcurrent"
    unfolding stepper_advances_def by blast+
  with t0 t1 tm have "\<not> v_t s1 < arg_tmax c" by simp
  with Inr show ?thesis by simp
qed

text \<open>
  Claim C2, amended. A trace called with \<^verbatim>\<open>tmax = 0\<close> ends after one pass of the loop:
  whatever the bound on the passes, the result is that of a single pass. When no stopping
  criterion fires in that pass (none holds at the arguments the scan of the first step
  hands it: iteration 1, the length of the step, its end time and the state there) and
  the first step detects no crossing of a \<open>v\<^sub>\<parallel>\<close> plane, the returned trajectory holds
  exactly two samples, both with time 0: the initial state, and the dense output of the
  first step evaluated at \<^verbatim>\<open>tmax = 0\<close>; and the event list is empty.
\<close>

theorem tmax_zero_two_samples:
  assumes starts: "stepper_starts L" and adv: "stepper_advances L r"
    and nofire: "\<forall>d tlast tcurrent ykeep f.
        do_step L (initialize L (make_dense_output L abstol reltol dtmax) y 0 dt) r = Inr (d, tlast, tcurrent)
        \<longrightarrow> canon (axis r) (current_state L d) = Inr ykeep \<longrightarrow> 4 \<le> length ykeep
        \<longrightarrow> Some f \<in> set stopping_criteria
        \<longrightarrow> \<not> f 1 (tcurrent - tlast) (current_time L d) (ykeep ! 0) (ykeep ! 1) (ykeep ! 2) (ykeep ! 3)"
    and nocross: "\<forall>d tlast tcurrent.
        do_step L (initialize L (make_dense_output L abstol reltol dtmax) y 0 dt) r = Inr (d, tlast, tcurrent)
        \<longrightarrow> (\<forall>v\<in>set vpars. \<not> vpar_crossed (if fl then y ! 3 else 0)
                               (if fl then current_state L d ! 3 else ind_vpar_current jk) v)"
  shows "solve L jk (Suc n) r y 0 dt dtmax abstol reltol phis omegas stopping_criteria vpars
           phis_stop vpars_stop fl fg \<noteq> None
       \<and> solve L jk (Suc n) r y 0 dt dtmax abstol reltol phis omegas stopping_criteria vpars
           phis_stop vpars_stop fl fg
         = solve L jk (Suc 0) r y 0 dt dtmax abstol reltol phis omegas stopping_criteria vpars
           phis_stop vpars_stop fl fg
       \<and> (\<forall>traj events.
            solve L jk (Suc n) r y 0 dt dtmax abstol reltol phis omegas stopping_criteria vpars
              phis_stop vpars_stop fl fg = Some (Inr (traj, events))
            \<longrightarrow> (\<exists>d tlast tcurrent ykeep0 ykeep1.
                   do_step L (initialize L (make_dense_output L abstol reltol dtmax) y 0 dt) r
                     = Inr (d, tlast, tcurrent)
                   \<and> canon (axis r) y = Inr ykeep0
                   \<and> canon (axis r) (calc_state L d 0) = Inr ykeep1
                   \<and> traj = [join [0] ykeep0, join [0] ykeep1])
                \<and> events = [])"
proof -
  define c where "c = \<lparr>arg_tmax = 0, arg_abstol = abstol, arg_phis = phis, arg_omegas = omegas,
               arg_stopping_criteria = stopping_criteria, arg_vpars = vpars,
               arg_phis_stop = phis_stop, arg_vpars_stop = vpars_stop, arg_flux = fl,
               arg_forget_exact_path = fg\<rparr>"
  let ?run = "\<lambda>fuel. solve L jk fuel r y 0 dt dtmax abstol reltol phis omegas stopping_criteria vpars
           phis_stop vpars_stop fl fg"
  have first: "solve_loop (Suc m) L r c s0 =
        (case solve_step L r c s0 of Inl e \<Rightarrow> Some (Inl e) | Inr s' \<Rightarrow> Some (Inr s'))"
    if i: "solve_init L jk y dt dtmax abstol reltol fl = Inr s0" for s0 m
  proof -
    have "current_time L (v_dense s0) = 0"
      using starts solve_init_facts(6) [OF i] by (simp add: stepper_starts_def)
    then show ?thesis
      by (intro solve_loop_first_pass_ends [OF adv]) (simp_all add: c_def)
  qed
  have nn: "?run (Suc n) \<noteq> None"
  proof (cases "solve_init L jk y dt dtmax abstol reltol fl")
    case (Inl e)
    then show ?thesis by (simp add: solve_def)
  next
    case (Inr s0)
    show ?thesis
      unfolding solve_def Let_def c_def [symmetric]
      by (simp add: Inr first [OF Inr] del: solve_loop.simps split: sum.splits)
  qed
  have one: "?run (Suc n) = ?run (Suc 0)"
  proof (cases "solve_init L jk y dt dtmax abstol reltol fl")
    case (Inl e)
    then show ?thesis by (simp add: solve_def)
  next
    case (Inr s0)
    show ?thesis
      unfolding solve_def Let_def c_def [symmetric]
      by (simp add: Inr first [OF Inr] del: solve_loop.simps)
  qed
  have shape: "(\<exists>d tlast tcurrent ykeep0 ykeep1.
                   do_step L (initialize L (make_dense_output L abstol reltol dtmax) y 0 dt) r
                     = Inr (d, tlast, tcurrent)
                   \<and> canon (axis r) y = Inr ykeep0
                   \<and> canon (axis r) (calc_state L d 0) = Inr ykeep1
                   \<and> traj = [join [0] ykeep0, join [0] ykeep1])
                \<and> events = []"
    if run: "?run (Suc n) = Some (Inr (traj, events))" for traj events
  proof -
    from run obtain s0 s where
      i: "solve_init L jk y dt dtmax abstol reltol fl = Inr s0"
      and l: "solve_loop (Suc n) L r c s0 = Some (Inr s)"
      and f: "solve_finish L r 0 s = Inr (traj, events)"
      unfolding solve_def Let_def c_def [symmetric]
      by (auto split: sum.splits option.splits)
    note i0 = solve_init_facts [OF i]
    from l first [OF i] have step: "solve_step L r c s0 = Inr s"
      by (auto split: sum.splits)
    have vl: "v_vpar_last s0 = (if fl then y ! 3 else 0)"
      and vcur: "v_vpar_current s0 = ind_vpar_current jk"
      using i by (auto simp: solve_init_def Let_def err_bind_Inr rd_def split: if_splits)
    obtain ykeep0 d tlast tcurrent pc vc tc s3 s5 s6 s7 where
      st: "do_step L (v_dense s0) r = Inr (d, tlast, tcurrent)"
      and s3: "s3 = s0\<lparr>v_res := v_res s0 @ (if \<not> arg_forget_exact_path c \<or> v_t s0 = 0 then [join [v_t s0] ykeep0] else []),
            v_dense := d, v_iter := v_iter s0 + 1, v_t := current_time L d, v_y := current_state L d,
            v_phi_current := pc, v_vpar_current := vc, v_t_current := tc\<rparr>"
      and vcdef: "vc = (if arg_flux c then current_state L d ! 3 else v_vpar_current s0)"
      and c5: "vpar_loop L c (axis r) tlast tcurrent 0 (arg_vpars c) (s3\<lparr>v_dt := tcurrent - tlast\<rparr>) = Inr s5"
      and c6: "phi_loop L c (axis r) tlast tcurrent 0 (arg_phis c) s5 = Inr s6"
      and c7: "stopping_loop c (axis r) 0 (arg_stopping_criteria c) s6 = Inr s7"
      and c8: "s = s7\<lparr>v_t_last := v_t_current s7, v_phi_last := v_phi_current s7,
             v_vpar_last := v_vpar_current s7\<rparr>"
      and k0: "\<not> arg_forget_exact_path c \<or> v_t s0 = 0 \<longrightarrow> canon (axis r) (v_y s0) = Inr ykeep0"
      by (rule solve_step_stages [OF step])
    from st i0(6) have st': "do_step L (initialize L (make_dense_output L abstol reltol dtmax) y 0 dt) r
        = Inr (d, tlast, tcurrent)" by simp
    from k0 i0(3,7) have k0': "canon (axis r) y = Inr ykeep0" by simp
    let ?s4 = "s3\<lparr>v_dt := tcurrent - tlast\<rparr>"
    have "\<forall>v\<in>set (arg_vpars c). \<not> vpar_crossed (v_vpar_last ?s4) (v_vpar_current ?s4) v"
      using nocross st i0(6) vl vcur vcdef by (cases fl) (auto simp: s3 c_def)
    from vpar_loop_no_crossing [OF this] c5 have e5: "s5 = ?s4" by simp
    have "v_t_last s5 = 0" using i0(5) by (simp add: e5 s3)
    from phi_loop_first_step_result [OF c6 this] have e6: "s6 = s5" .
    have s6: "v_y s6 = current_state L d" "v_iter s6 = 1" "v_dt s6 = tcurrent - tlast"
      "v_t s6 = current_time L d"
      using i0(8) by (simp_all add: e6 e5 s3)
    have "\<forall>ykeep f. canon (axis r) (v_y s6) = Inr ykeep \<longrightarrow> 4 \<le> length ykeep \<longrightarrow>
        Some f \<in> set (arg_stopping_criteria c) \<longrightarrow>
          \<not> f (v_iter s6) (v_dt s6) (v_t s6) (ykeep ! 0) (ykeep ! 1) (ykeep ! 2) (ykeep ! 3)"
      unfolding s6 using nofire st' by (simp add: c_def)
    from stopping_loop_none_fires [OF c7 this] have e7: "s7 = s6" .
    have r: "v_res s = [join [0] ykeep0]" and h: "v_res_phi_hits s = []" and ns: "\<not> v_stop s"
      and dn: "v_dense s = d"
      using i0(1,2,3,4) by (simp_all add: c8 e7 e6 e5 s3)
    from f ns r h dn obtain ykeep1 where "canon (axis r) (calc_state L d 0) = Inr ykeep1"
      and "traj = [join [0] ykeep0, join [0] ykeep1]" and "events = []"
      by (auto simp: solve_finish_def err_bind_Inr)
    with st' k0' show ?thesis by blast
  qed
  from nn one shape show ?thesis by blast
qed

lemma demo_run_tmax_zero:
  "solve demo_lib (junk 0) (Suc 0) demo_rhs [1 / 2, 0, 0, 1 / 2] 0 1 1 (1 / 100) (1 / 100)
      [] [] [Some (iteration_cap 5)] [2] False False True False
   = Some (Inr ([[0, 1 / 2, 0, 0, 1 / 2], [0, 1 / 2, 0, 0, 1 / 2]], []))"
  by (simp add: demo_run_simps iteration_cap_def)

theorem tmax_zero_two_samples_witness:
  "solve demo_lib (junk 0) (Suc 0) demo_rhs [1 / 2, 0, 0, 1 / 2] 0 1 1 (1 / 100) (1 / 100)
      [] [] [Some (iteration_cap 5)] [2] False False True False
     = Some (Inr ([[0, 1 / 2, 0, 0, 1 / 2], [0, 1 / 2, 0, 0, 1 / 2]], []))
   \<and> (\<exists>d tlast tcurrent ykeep0 ykeep1.
        do_step demo_lib (initialize demo_lib (make_dense_output demo_lib (1 / 100) (1 / 100) 1)
            [1 / 2, 0, 0, 1 / 2] 0 1) demo_rhs = Inr (d, tlast, tcurrent)
        \<and> canon (axis demo_rhs) [1 / 2, 0, 0, 1 / 2] = Inr ykeep0
        \<and> canon (axis demo_rhs) (calc_state demo_lib d 0) = Inr ykeep1
        \<and> [[0, 1 / 2, 0, 0, 1 / 2], [0, 1 / 2, 0, 0, 1 / 2 :: real]] = [join [0] ykeep0, join [0] ykeep1])"
proof -
  have nofire: "\<forall>d tlast tcurrent ykeep f.
        do_step demo_lib (initialize demo_lib (make_dense_output demo_lib (1 / 100) (1 / 100) 1)
            [1 / 2, 0, 0, 1 / 2] 0 1) demo_rhs = Inr (d, tlast, tcurrent)
        \<longrightarrow> canon (axis demo_rhs) (current_state demo_lib d) = Inr ykeep \<longrightarrow> 4 \<le> length ykeep
        \<longrightarrow> Some f \<in> set [Some (iteration_cap 5)]
        \<longrightarrow> \<not> f 1 (tcurrent - tlast) (current_time demo_lib d) (ykeep ! 0) (ykeep ! 1) (ykeep ! 2) (ykeep ! 3)"
    by (simp add: iteration_cap_def)
  have nocross: "\<forall>d tlast tcurrent.
        do_step demo_lib (initialize demo_lib (make_dense_output demo_lib (1 / 100) (1 / 100) 1)
            [1 / 2, 0, 0, 1 / 2] 0 1) demo_rhs = Inr (d, tlast, tcurrent)
        \<longrightarrow> (\<forall>v\<in>set [2]. \<not> vpar_crossed (if True then [1 / 2, 0, 0, 1 / 2] ! 3 else 0)
                               (if True then current_state demo_lib d ! 3 else ind_vpar_current (junk 0)) v)"
    by (auto simp: demo_lib_def demo_rhs_def vpar_crossed_def sign3_def)
  from tmax_zero_two_samples [OF demo_stepper_starts demo_stepper_advances nofire nocross,
      of 0 "[]" "[]" False False False] demo_run_tmax_zero
  show ?thesis by simp
qed

lemmas demo_fieldline_simps =
  fieldline_tracing_def FieldlineRHS_def demo_field_def demo_run_simps

text \<open>
  Claim C2 as stated fails: the field-line trace below, with \<^verbatim>\<open>tmax = 0\<close> and no stopping
  criterion, returns two samples, not one.
\<close>

theorem tmax_zero_single_sample_counterexample:
  "fieldline_tracing demo_lib (junk 0) 1 demo_field (1, - 1, 0) 0 (1 / 100) (1 / 100) [] []
     = Some (Inr ([[0, 1, - 1, 0], [0, 1, - 1, 0]], []))
   \<and> length [[0, 1, - 1, 0], [0, 1, - 1, 0 :: real]] \<noteq> 1"
  by (simp add: demo_fieldline_simps)

subsection \<open>Stopping criteria on a field line\<close>

text \<open>
  Claim C7, amended. The state of a field-line trace has three components. When the list of
  stopping criteria holds an entry that is not the null pointer, the scan of the stopping
  criteria reads \<^verbatim>\<open>ykeep[3]\<close>, one past the end, whenever it runs on such a state; and a
  field-line trace whose first step completes reaches that read in the scan of that step.
\<close>

theorem fieldline_stopping_criterion_out_of_bounds:
  assumes "Some crit \<in> set stopping_criteria"
  shows "(length (v_y s) = 3 \<longrightarrow>
            stopping_loop c (axis (FieldlineRHS field)) i stopping_criteria s = Inl OutOfBounds)
       \<and> (\<forall>d tlast tcurrent.
            do_step L (initialize L
                (make_dense_output L abstol reltol
                   (sqrt (x0 * x0 + y0 * y0) * 0.5 * pi / AbsB_at_xyz field x0 y0 z0))
                [x0, y0, z0] 0
                (1 / 100000 * (sqrt (x0 * x0 + y0 * y0) * 0.5 * pi / AbsB_at_xyz field x0 y0 z0)))
              (FieldlineRHS field) = Inr (d, tlast, tcurrent)
            \<and> length (current_state L d) = 3
            \<longrightarrow> fieldline_tracing L jk (Suc n) field (x0, y0, z0) tmax abstol reltol phis
                  stopping_criteria = Some (Inl OutOfBounds))"
proof (intro conjI allI impI)
  assume "length (v_y s) = 3"
  then show "stopping_loop c (axis (FieldlineRHS field)) i stopping_criteria s = Inl OutOfBounds"
    using assms by (intro stopping_loop_size3) (simp_all add: FieldlineRHS_def)
next
  fix d tlast tcurrent
  define dtmax where "dtmax = sqrt (x0 * x0 + y0 * y0) * 0.5 * pi / AbsB_at_xyz field x0 y0 z0"
  define c where "c = \<lparr>arg_tmax = tmax, arg_abstol = abstol, arg_phis = phis,
               arg_omegas = replicate (length phis) 0,
               arg_stopping_criteria = stopping_criteria, arg_vpars = [],
               arg_phis_stop = False, arg_vpars_stop = False, arg_flux = False,
               arg_forget_exact_path = False\<rparr>"
  define s0 where "s0 = \<lparr>v_res = [], v_res_phi_hits = [],
                v_dense = initialize L (make_dense_output L abstol reltol dtmax) [x0, y0, z0] 0
                            (1 / 100000 * dtmax),
                v_t = 0, v_y = [x0, y0, z0], v_dt = 1 / 100000 * dtmax, v_iter = 0, v_stop = False,
                v_phi_last = get_phi x0 y0 pi, v_vpar_last = 0, v_t_last = 0,
                v_phi_current = ind_phi_current jk,
                v_vpar_current = ind_vpar_current jk,
                v_t_current = ind_t_current jk, v_rootmaxit = 200\<rparr>"
  assume "do_step L (initialize L
                (make_dense_output L abstol reltol
                   (sqrt (x0 * x0 + y0 * y0) * 0.5 * pi / AbsB_at_xyz field x0 y0 z0))
                [x0, y0, z0] 0
                (1 / 100000 * (sqrt (x0 * x0 + y0 * y0) * 0.5 * pi / AbsB_at_xyz field x0 y0 z0)))
              (FieldlineRHS field) = Inr (d, tlast, tcurrent)
            \<and> length (current_state L d) = 3"
  then have ds: "do_step L (v_dense s0) (FieldlineRHS field) = Inr (d, tlast, tcurrent)"
    and len: "length (current_state L d) = 3"
    by (simp_all add: s0_def dtmax_def)
  have init: "solve_init L jk [x0, y0, z0] (1 / 100000 * dtmax) dtmax abstol reltol False = Inr s0"
    by (simp add: solve_init_def s0_def err_bind_def rd_def Let_def)
  have ax: "axis (FieldlineRHS field) = 0" by (simp add: FieldlineRHS_def)
  have step: "solve_step L (FieldlineRHS field) c s0 = Inl OutOfBounds"
  proof -
    have f: "v_t_last s0 = 0" "v_y s0 = [x0, y0, z0]"
      by (simp_all add: s0_def)
    have a: "arg_vpars c = []" "\<not> arg_flux c" "arg_omegas c = replicate (length phis) 0"
      "arg_phis c = phis" "arg_stopping_criteria c = stopping_criteria"
      by (simp_all add: c_def)
    show ?thesis
      unfolding solve_step_def
      by (simp add: err_bind_def canon_def ax ds rd_def len Let_def f a
          phi_loop_first_step stopping_loop_size3 [OF _ assms])
  qed
  show "fieldline_tracing L jk (Suc n) field (x0, y0, z0) tmax abstol reltol phis
                  stopping_criteria = Some (Inl OutOfBounds)"
  proof -
    have "solve L jk (Suc n) (FieldlineRHS field) [x0, y0, z0] tmax (1 / 100000 * dtmax) dtmax
            abstol reltol phis (replicate (length phis) 0) stopping_criteria []
            False False False False = Some (Inl OutOfBounds)"
      unfolding solve_def Let_def c_def [symmetric] init by (simp add: step)
    then show ?thesis
      unfolding fieldline_tracing_def Let_def dtmax_def by (simp only: prod.case)
  qed
qed

theorem fieldline_stopping_criterion_out_of_bounds_witness:
  "fieldline_tracing demo_lib (junk 0) (Suc 0) demo_field (1, - 1, 0) 2 (1 / 100) (1 / 100) []
      [Some never_stop] = Some (Inl OutOfBounds)"
proof -
  define d1 where "d1 = \<lparr>us_t_old = 0, us_t = 1, us_y_old = [1, - 1, 0], us_y = [1, 0, 0]\<rparr>"
  have crit: "Some never_stop \<in> set [Some never_stop]" by simp
  have step: "do_step demo_lib (initialize demo_lib
                (make_dense_output demo_lib (1 / 100) (1 / 100)
                   (sqrt (1 * 1 + - 1 * - 1) * 0.5 * pi / AbsB_at_xyz demo_field 1 (- 1) 0))
                [1, - 1, 0] 0
                (1 / 100000 * (sqrt (1 * 1 + - 1 * - 1) * 0.5 * pi / AbsB_at_xyz demo_field 1 (- 1) 0)))
              (FieldlineRHS demo_field) = Inr (d1, 0, 1)
            \<and> length (current_state demo_lib d1) = 3"
    by (simp add: demo_lib_def FieldlineRHS_def demo_field_def err_bind_def rd_def d1_def)
  from fieldline_stopping_criterion_out_of_bounds [OF crit, THEN conjunct2, rule_format, OF step]
  show ?thesis .
qed

text \<open>
  Claim C7 as stated fails for a non-empty list that holds null pointers only: the \<^verbatim>\<open>&&\<close>
  skips a null entry before the arguments of the call are evaluated, so the field-line
  trace below runs to \<^verbatim>\<open>tmax\<close> and \<^verbatim>\<open>ykeep[3]\<close> is never read.
\<close>

theorem null_stopping_criterion_is_skipped_counterexample:
  "fieldline_tracing demo_lib (junk 0) 5 demo_field (1, - 1, 0) 2 (1 / 100) (1 / 100) [] [None]
     = Some (Inr ([[0, 1, - 1, 0], [1, 1, 0, 0], [2, 1, 1, 0]], []))
   \<and> [None :: StoppingCriterion option] \<noteq> []"
  by (simp add: demo_fieldline_simps eval_nat_numeral)

subsection \<open>Termination by a crossing\<close>

lemma solve_loop_ends_on_stop:
  assumes "solve_step L r c s = Inr s'" and "v_stop s'"
  shows "solve_loop (Suc fuel) L r c s = Some (Inr s')"
  using assms by simp

text \<open>
  Claim C1 does not hold of the code. In the run below \<^verbatim>\<open>vpars_stop\<close> is set and the
  parallel velocity crosses 0 at \<open>t = 1/2\<close> in the first step. The sample and the event of
  the crossing are emitted and \<^verbatim>\<open>stop\<close> is set, but the \<^verbatim>\<open>break\<close> leaves the \<^verbatim>\<open>vpars\<close> loop
  only: the scan of the stopping criteria still runs in the same step, and its criterion
  appends a further sample and a further event, both at \<open>t = 1\<close>.
\<close>

theorem vpar_stop_crossing_is_not_the_last_emission:
  "solve demo_lib (junk 0) 3 demo_rhs [1 / 2, 0, 0, 1 / 2] 10 1 1 (1 / 100) (1 / 100)
      [] [] [Some (zeta_above (3 / 4))] [0] False True True False
   = Some (Inr ([[0, 1 / 2, 0, 0, 1 / 2], [1 / 2, 1 / 2, 0, 1 / 2, 0], [1, 1 / 2, 0, 1, - (1 / 2)]],
                [[1 / 2, 0, 1 / 2, 0, 1 / 2, 0], [1, - 1, 1 / 2, 0, 1, - (1 / 2)]]))"
  by (simp add: demo_run_simps zeta_above_def numeral_3_eq_3)

text \<open>
  The part of claim C6 that holds: the event list does not depend on
  \<^verbatim>\<open>forget_exact_path\<close>. A trace that returns with the flag unset returns with the flag set,
  with the same events.
\<close>

lemma res_out:
  "s\<lparr>v_res := x\<rparr>\<lparr>v_res_phi_hits := a1\<rparr> = s\<lparr>v_res_phi_hits := a1\<rparr>\<lparr>v_res := x\<rparr>"
  "s\<lparr>v_res := x\<rparr>\<lparr>v_dense := a2\<rparr> = s\<lparr>v_dense := a2\<rparr>\<lparr>v_res := x\<rparr>"
  "s\<lparr>v_res := x\<rparr>\<lparr>v_t := a3\<rparr> = s\<lparr>v_t := a3\<rparr>\<lparr>v_res := x\<rparr>"
  "s\<lparr>v_res := x\<rparr>\<lparr>v_y := a4\<rparr> = s\<lparr>v_y := a4\<rparr>\<lparr>v_res := x\<rparr>"
  "s\<lparr>v_res := x\<rparr>\<lparr>v_dt := a5\<rparr> = s\<lparr>v_dt := a5\<rparr>\<lparr>v_res := x\<rparr>"
  "s\<lparr>v_res := x\<rparr>\<lparr>v_iter := a6\<rparr> = s\<lparr>v_iter := a6\<rparr>\<lparr>v_res := x\<rparr>"
  "s\<lparr>v_res := x\<rparr>\<lparr>v_stop := a7\<rparr> = s\<lparr>v_stop := a7\<rparr>\<lparr>v_res := x\<rparr>"
  "s\<lparr>v_res := x\<rparr>\<lparr>v_phi_last := a8\<rparr> = s\<lparr>v_phi_last := a8\<rparr>\<lparr>v_res := x\<rparr>"
  "s\<lparr>v_res := x\<rparr>\<lparr>v_vpar_last := a9\<rparr> = s\<lparr>v_vpar_last := a9\<rparr>\<lparr>v_res := x\<rparr>"
  "s\<lparr>v_res := x\<rparr>\<lparr>v_t_last := a10\<rparr> = s\<lparr>v_t_last := a10\<rparr>\<lparr>v_res := x\<rparr>"
  "s\<lparr>v_res := x\<rparr>\<lparr>v_phi_current := a11\<rparr> = s\<lparr>v_phi_current := a11\<rparr>\<lparr>v_res := x\<rparr>"
  "s\<lparr>v_res := x\<rparr>\<lparr>v_vpar_current := a12\<rparr> = s\<lparr>v_vpar_current := a12\<rparr>\<lparr>v_res := x\<rparr>"
  "s\<lparr>v_res := x\<rparr>\<lparr>v_t_current := a13\<rparr> = s\<lparr>v_t_current := a13\<rparr>\<lparr>v_res := x\<rparr>"
  "s\<lparr>v_res := x\<rparr>\<lparr>v_rootmaxit := a14\<rparr> = s\<lparr>v_rootmaxit := a14\<rparr>\<lparr>v_res := x\<rparr>"
  by (cases s; simp)+

lemma err_bind_simps:
  "err_bind (Inr v) f = f v" "err_bind (Inl e) f = Inl e"
  by (simp_all add: err_bind_def)

lemma vpar_loop_forget:
  assumes "vpar_loop L c ax tlast tcurrent i vs s = Inr s'"
  shows "\<exists>x'. vpar_loop L (c\<lparr>arg_forget_exact_path := b\<rparr>) ax tlast tcurrent i vs (s\<lparr>v_res := x\<rparr>)
              = Inr (s'\<lparr>v_res := x'\<rparr>)"
  using assms
proof (induction vs arbitrary: i s x)
  case Nil
  then show ?case by auto
next
  case (Cons v vs)
  show ?case
  proof (cases "vpar_crossed (v_vpar_last s) (v_vpar_current s) v")
    case False
    with Cons.prems have "vpar_loop L c ax tlast tcurrent (Suc i) vs s = Inr s'" by simp
    from Cons.IH [OF this, of x] False show ?thesis by simp
  next
    case True
    with Cons.prems obtain troot ykeep m1 where
      r: "refine_root L (v_dense s) ax (arg_abstol c) (v_rootmaxit s)
             (\<lambda>t. err_bind (rd (calc_state L (v_dense s) t) 3) (\<lambda>temp3. Inr (temp3 - v)))
             tlast tcurrent (v_vpar_last s - v) (v_vpar_current s - v) = Inr (troot, ykeep, m1)"
      by (auto simp: err_bind_def split: sum.splits)
    define h where "h = join [troot, real i + real (length (arg_phis c))] ykeep"
    show ?thesis
    proof (cases "arg_vpars_stop c")
      case stop: True
      with Cons.prems True r
      have "s' = s\<lparr>v_rootmaxit := m1, v_res_phi_hits := v_res_phi_hits s @ [h],
                  v_res := v_res s @ [join [troot] ykeep], v_stop := True\<rparr>"
        by (simp add: err_bind_def Let_def h_def res_out)
      then have "vpar_loop L (c\<lparr>arg_forget_exact_path := b\<rparr>) ax tlast tcurrent i (v # vs) (s\<lparr>v_res := x\<rparr>)
              = Inr (s'\<lparr>v_res := x @ [join [troot] ykeep]\<rparr>)"
        using True r stop by (simp add: err_bind_def Let_def h_def res_out)
      then show ?thesis by blast
    next
      case False
      let ?s1 = "s\<lparr>v_rootmaxit := m1, v_res_phi_hits := v_res_phi_hits s @ [h]\<rparr>"
      from False Cons.prems True r
      have "vpar_loop L c ax tlast tcurrent (Suc i) vs ?s1 = Inr s'"
        by (simp add: err_bind_def Let_def h_def res_out)
      from Cons.IH [OF this, of x] obtain x' where
        "vpar_loop L (c\<lparr>arg_forget_exact_path := b\<rparr>) ax tlast tcurrent (Suc i) vs (?s1\<lparr>v_res := x\<rparr>)
              = Inr (s'\<lparr>v_res := x'\<rparr>)" by blast
      then have "vpar_loop L (c\<lparr>arg_forget_exact_path := b\<rparr>) ax tlast tcurrent i (v # vs) (s\<lparr>v_res := x\<rparr>)
              = Inr (s'\<lparr>v_res := x'\<rparr>)"
        using True r False by (simp add: err_bind_def Let_def h_def res_out)
      then show ?thesis by blast
    qed
  qed
qed

lemma phi_loop_forget:
  assumes "phi_loop L c ax tlast tcurrent i ps s = Inr s'"
  shows "\<exists>x'. phi_loop L (c\<lparr>arg_forget_exact_path := b\<rparr>) ax tlast tcurrent i ps (s\<lparr>v_res := x\<rparr>)
              = Inr (s'\<lparr>v_res := x'\<rparr>)"
  using assms
proof (induction ps arbitrary: i s x)
  case Nil
  then show ?case by auto
next
  case (Cons p ps)
  from Cons.prems obtain omega where om: "rd (arg_omegas c) i = Inr omega"
    by (auto simp: err_bind_def split: sum.splits)
  define phase_last where "phase_last = v_phi_last s - omega * v_t_last s"
  define phase_current where "phase_current = v_phi_current s - omega * v_t_current s"
  define crossed where "crossed \<longleftrightarrow> v_t_last s \<noteq> 0
     \<and> \<lfloor>(phase_last - p) / (2 * pi)\<rfloor> \<noteq> \<lfloor>(phase_current - p) / (2 * pi)\<rfloor>"
  show ?case
  proof (cases crossed)
    case False
    with Cons.prems om have "phi_loop L c ax tlast tcurrent (Suc i) ps s = Inr s'"
      by (auto simp add: err_bind_def Let_def crossed_def phase_last_def phase_current_def)
    from Cons.IH [OF this, of x] obtain x' where
      "phi_loop L (c\<lparr>arg_forget_exact_path := b\<rparr>) ax tlast tcurrent (Suc i) ps (s\<lparr>v_res := x\<rparr>)
              = Inr (s'\<lparr>v_res := x'\<rparr>)" by blast
    with False om have "phi_loop L (c\<lparr>arg_forget_exact_path := b\<rparr>) ax tlast tcurrent i (p # ps) (s\<lparr>v_res := x\<rparr>)
              = Inr (s'\<lparr>v_res := x'\<rparr>)"
      by (auto simp add: err_bind_def Let_def crossed_def phase_last_def phase_current_def)
    then show ?thesis by blast
  next
    case True
    define phase_shift where "phase_shift =
       real_of_int (c_round (((phase_last + phase_current) / 2 - p) / (2 * pi))) * 2 * pi + p"
    define rootfun where "rootfun = (\<lambda>t. if arg_flux c
                            then err_bind (rd (calc_state L (v_dense s) t) 2) (\<lambda>temp2.
                                   Inr (temp2 - omega * t - phase_shift))
                            else err_bind (rd (calc_state L (v_dense s) t) 0) (\<lambda>temp0.
                                 err_bind (rd (calc_state L (v_dense s) t) 1) (\<lambda>temp1.
                                   Inr (get_phi temp0 temp1 (v_phi_last s) - omega * t - phase_shift))))"
    define inside where "inside \<longleftrightarrow> (phase_last \<le> phase_shift \<and> phase_shift \<le> phase_current)
                  \<or> (phase_current \<le> phase_shift \<and> phase_shift \<le> phase_last)"
    have unfold: "phi_loop L cc ax tlast tcurrent i (p # ps) ss =
        (if inside then
           err_bind (refine_root L (v_dense s) ax (arg_abstol c) (v_rootmaxit s) rootfun tlast tcurrent
                       (phase_last - phase_shift) (phase_current - phase_shift))
             (\<lambda>(troot, ykeep, rootmaxit').
                let s' = ss\<lparr>v_rootmaxit := rootmaxit',
                           v_res_phi_hits := v_res_phi_hits ss @ [join [troot, real i] ykeep]\<rparr>
                in if arg_phis_stop c
                   then Inr (s'\<lparr>v_res := v_res s' @ [join [troot] ykeep], v_stop := True\<rparr>)
                   else phi_loop L cc ax tlast tcurrent (Suc i) ps s')
         else Inl AssertionFailed)"
      if "cc = c \<or> cc = c\<lparr>arg_forget_exact_path := b\<rparr>" "ss = s \<or> ss = s\<lparr>v_res := x\<rparr>" for cc ss
      using that True om
      unfolding rootfun_def inside_def phase_shift_def crossed_def phase_last_def phase_current_def
      by (auto simp add: err_bind_simps Let_def cong: if_cong)
    note unfold1 = unfold [OF disjI1 disjI1, OF refl refl]
    note unfold2 = unfold [OF disjI2 disjI2, OF refl refl]
    from Cons.prems [unfolded unfold1] obtain troot ykeep m1 where ins: inside
      and r: "refine_root L (v_dense s) ax (arg_abstol c) (v_rootmaxit s) rootfun tlast tcurrent
                       (phase_last - phase_shift) (phase_current - phase_shift) = Inr (troot, ykeep, m1)"
      by (auto simp: err_bind_def split: sum.splits if_splits)
    define h where "h = join [troot, real i] ykeep"
    show ?thesis
    proof (cases "arg_phis_stop c")
      case stop: True
      from Cons.prems [unfolded unfold1] have "s' = s\<lparr>v_rootmaxit := m1,
                  v_res_phi_hits := v_res_phi_hits s @ [h],
                  v_res := v_res s @ [join [troot] ykeep], v_stop := True\<rparr>"
        using ins r stop by (simp add: err_bind_def h_def res_out)
      then have "phi_loop L (c\<lparr>arg_forget_exact_path := b\<rparr>) ax tlast tcurrent i (p # ps) (s\<lparr>v_res := x\<rparr>)
              = Inr (s'\<lparr>v_res := x @ [join [troot] ykeep]\<rparr>)"
        unfolding unfold2
        using ins r stop by (simp add: err_bind_def h_def res_out)
      then show ?thesis by blast
    next
      case False
      let ?s1 = "s\<lparr>v_rootmaxit := m1, v_res_phi_hits := v_res_phi_hits s @ [h]\<rparr>"
      from Cons.prems [unfolded unfold1] have "phi_loop L c ax tlast tcurrent (Suc i) ps ?s1 = Inr s'"
        using ins r False by (simp add: err_bind_def h_def res_out)
      from Cons.IH [OF this, of x] obtain x' where
        "phi_loop L (c\<lparr>arg_forget_exact_path := b\<rparr>) ax tlast tcurrent (Suc i) ps (?s1\<lparr>v_res := x\<rparr>)
              = Inr (s'\<lparr>v_res := x'\<rparr>)" by blast
      then have "phi_loop L (c\<lparr>arg_forget_exact_path := b\<rparr>) ax tlast tcurrent i (p # ps) (s\<lparr>v_res := x\<rparr>)
              = Inr (s'\<lparr>v_res := x'\<rparr>)"
        unfolding unfold2
        using ins r False by (simp add: err_bind_def h_def res_out)
      then show ?thesis by blast
    qed
  qed
qed

lemma stopping_loop_forget:
  assumes "stopping_loop c ax i crits s = Inr s'"
  shows "\<exists>x'. stopping_loop (c\<lparr>arg_forget_exact_path := b\<rparr>) ax i crits (s\<lparr>v_res := x\<rparr>)
              = Inr (s'\<lparr>v_res := x'\<rparr>)"
  using assms
proof (induction crits arbitrary: i)
  case Nil
  then show ?case by auto
next
  case (Cons a crits)
  then show ?case
    by (auto simp: err_bind_def res_out split: sum.splits option.splits if_splits)
qed

lemma currents_forget:
  assumes "(if fl
             then err_bind (rd (v_y s2) 2) (\<lambda>y2. err_bind (rd (v_y s2) 3) (\<lambda>y3.
                    Inr (s2\<lparr>v_t_current := v_t s2, v_phi_current := y2, v_vpar_current := y3\<rparr>)))
             else err_bind (rd (v_y s2) 0) (\<lambda>y0. err_bind (rd (v_y s2) 1) (\<lambda>y1.
                    Inr (s2\<lparr>v_phi_current := get_phi y0 y1 (v_phi_last s2)\<rparr>)))) = Inr s3"
  shows "(if fl
             then err_bind (rd (v_y (s2\<lparr>v_res := x\<rparr>)) 2) (\<lambda>y2. err_bind (rd (v_y (s2\<lparr>v_res := x\<rparr>)) 3) (\<lambda>y3.
                    Inr (s2\<lparr>v_res := x\<rparr>\<lparr>v_t_current := v_t (s2\<lparr>v_res := x\<rparr>), v_phi_current := y2,
                          v_vpar_current := y3\<rparr>)))
             else err_bind (rd (v_y (s2\<lparr>v_res := x\<rparr>)) 0) (\<lambda>y0. err_bind (rd (v_y (s2\<lparr>v_res := x\<rparr>)) 1) (\<lambda>y1.
                    Inr (s2\<lparr>v_res := x\<rparr>\<lparr>v_phi_current := get_phi y0 y1 (v_phi_last (s2\<lparr>v_res := x\<rparr>))\<rparr>))))
         = Inr (s3\<lparr>v_res := x\<rparr>)"
  using assms by (cases fl) (auto simp: err_bind_def res_out split: sum.splits)

lemma solve_step_forget:
  assumes run: "solve_step L r c s = Inr s'" and nf: "\<not> arg_forget_exact_path c"
  shows "\<exists>x'. solve_step L r (c\<lparr>arg_forget_exact_path := b\<rparr>) (s\<lparr>v_res := x\<rparr>) = Inr (s'\<lparr>v_res := x'\<rparr>)"
proof -
  let ?c' = "c\<lparr>arg_forget_exact_path := b\<rparr>"
  from run nf obtain ykeep0 where
    a: "canon (axis r) (v_y s) = Inr ykeep0"
    and b: "err_bind (do_step L (v_dense s) r) (\<lambda>(d, tlast, tcurrent).
       let s2 = s\<lparr>v_res := v_res s @ [join [v_t s] ykeep0]\<rparr>\<lparr>v_dense := d,
                   v_iter := v_iter (s\<lparr>v_res := v_res s @ [join [v_t s] ykeep0]\<rparr>) + 1,
                   v_t := current_time L d, v_y := current_state L d\<rparr>
       in err_bind
            (if arg_flux c
             then err_bind (rd (v_y s2) 2) (\<lambda>y2. err_bind (rd (v_y s2) 3) (\<lambda>y3.
                    Inr (s2\<lparr>v_t_current := v_t s2, v_phi_current := y2, v_vpar_current := y3\<rparr>)))
             else err_bind (rd (v_y s2) 0) (\<lambda>y0. err_bind (rd (v_y s2) 1) (\<lambda>y1.
                    Inr (s2\<lparr>v_phi_current := get_phi y0 y1 (v_phi_last s2)\<rparr>)))) (\<lambda>s3.
          let s4 = s3\<lparr>v_dt := tcurrent - tlast\<rparr>
          in err_bind (vpar_loop L c (axis r) tlast tcurrent 0 (arg_vpars c) s4) (\<lambda>s5.
             err_bind (phi_loop L c (axis r) tlast tcurrent 0 (arg_phis c) s5) (\<lambda>s6.
             err_bind (stopping_loop c (axis r) 0 (arg_stopping_criteria c) s6) (\<lambda>s7.
               Inr (s7\<lparr>v_t_last := v_t_current s7,
                       v_phi_last := v_phi_current s7,
                       v_vpar_last := v_vpar_current s7\<rparr>)))))) = Inr s'"
    unfolding solve_step_def
    by (cases "canon (axis r) (v_y s)") (simp_all add: err_bind_simps)
  from b obtain d tlast tcurrent where
    st: "do_step L (v_dense s) r = Inr (d, tlast, tcurrent)"
    by (cases "do_step L (v_dense s) r") (auto simp: err_bind_simps)
  define s2 where "s2 = s\<lparr>v_dense := d, v_iter := v_iter s + 1,
                   v_t := current_time L d, v_y := current_state L d\<rparr>"
  define x0 where "x0 = v_res s @ [join [v_t s] ykeep0]"
  have s2a: "s\<lparr>v_res := v_res s @ [join [v_t s] ykeep0]\<rparr>\<lparr>v_dense := d,
                   v_iter := v_iter (s\<lparr>v_res := v_res s @ [join [v_t s] ykeep0]\<rparr>) + 1,
                   v_t := current_time L d, v_y := current_state L d\<rparr> = s2\<lparr>v_res := x0\<rparr>"
    by (simp add: s2_def x0_def res_out)
  from b obtain s3 s5 s6 s7 where
    c3: "(if arg_flux c
             then err_bind (rd (v_y (s2\<lparr>v_res := x0\<rparr>)) 2) (\<lambda>y2. err_bind (rd (v_y (s2\<lparr>v_res := x0\<rparr>)) 3) (\<lambda>y3.
                    Inr (s2\<lparr>v_res := x0\<rparr>\<lparr>v_t_current := v_t (s2\<lparr>v_res := x0\<rparr>), v_phi_current := y2,
                          v_vpar_current := y3\<rparr>)))
             else err_bind (rd (v_y (s2\<lparr>v_res := x0\<rparr>)) 0) (\<lambda>y0. err_bind (rd (v_y (s2\<lparr>v_res := x0\<rparr>)) 1) (\<lambda>y1.
                    Inr (s2\<lparr>v_res := x0\<rparr>\<lparr>v_phi_current := get_phi y0 y1 (v_phi_last (s2\<lparr>v_res := x0\<rparr>))\<rparr>))))
          = Inr s3"
    and c5: "vpar_loop L c (axis r) tlast tcurrent 0 (arg_vpars c) (s3\<lparr>v_dt := tcurrent - tlast\<rparr>) = Inr s5"
    and c6: "phi_loop L c (axis r) tlast tcurrent 0 (arg_phis c) s5 = Inr s6"
    and c7: "stopping_loop c (axis r) 0 (arg_stopping_criteria c) s6 = Inr s7"
    and c8: "s' = s7\<lparr>v_t_last := v_t_current s7, v_phi_last := v_phi_current s7,
             v_vpar_last := v_vpar_current s7\<rparr>"
    unfolding st err_bind_simps prod.case Let_def s2a
      err_bind_Inr [of "if _ then _ else _"]
      err_bind_Inr [of "vpar_loop _ _ _ _ _ _ _ _"]
      err_bind_Inr [of "phi_loop _ _ _ _ _ _ _ _"]
      err_bind_Inr [of "stopping_loop _ _ _ _ _"]
    by auto
  define x1 where "x1 = (if \<not> b \<or> v_t s = 0 then x @ [join [v_t s] ykeep0] else x)"
  have B1: "(if \<not> arg_forget_exact_path ?c' \<or> v_t (s\<lparr>v_res := x\<rparr>) = 0
        then err_bind (canon (axis r) (v_y (s\<lparr>v_res := x\<rparr>))) (\<lambda>ykeep.
               Inr (s\<lparr>v_res := x\<rparr>\<lparr>v_res := v_res (s\<lparr>v_res := x\<rparr>) @ [join [v_t (s\<lparr>v_res := x\<rparr>)] ykeep]\<rparr>))
        else Inr (s\<lparr>v_res := x\<rparr>)) = Inr (s\<lparr>v_res := x1\<rparr>)"
    by (simp add: a err_bind_simps x1_def)
  have s2b: "s\<lparr>v_res := x1\<rparr>\<lparr>v_dense := d, v_iter := v_iter (s\<lparr>v_res := x1\<rparr>) + 1,
                   v_t := current_time L d, v_y := current_state L d\<rparr> = s2\<lparr>v_res := x1\<rparr>"
    by (simp add: s2_def res_out)
  have s3': "s3 = s3\<lparr>v_res := x0\<rparr>"
    using c3 by (cases "arg_flux c") (auto simp: err_bind_Inr)
  have "(if arg_flux c
             then err_bind (rd (v_y s2) 2) (\<lambda>y2. err_bind (rd (v_y s2) 3) (\<lambda>y3.
                    Inr (s2\<lparr>v_t_current := v_t s2, v_phi_current := y2, v_vpar_current := y3\<rparr>)))
             else err_bind (rd (v_y s2) 0) (\<lambda>y0. err_bind (rd (v_y s2) 1) (\<lambda>y1.
                    Inr (s2\<lparr>v_phi_current := get_phi y0 y1 (v_phi_last s2)\<rparr>)))) = Inr (s3\<lparr>v_res := v_res s2\<rparr>)"
    using currents_forget [OF c3, of "v_res s2"] by (simp cong: if_cong)
  from currents_forget [OF this, of x1]
  have B3: "(if arg_flux ?c'
             then err_bind (rd (v_y (s2\<lparr>v_res := x1\<rparr>)) 2) (\<lambda>y2. err_bind (rd (v_y (s2\<lparr>v_res := x1\<rparr>)) 3) (\<lambda>y3.
                    Inr (s2\<lparr>v_res := x1\<rparr>\<lparr>v_t_current := v_t (s2\<lparr>v_res := x1\<rparr>), v_phi_current := y2,
                          v_vpar_current := y3\<rparr>)))
             else err_bind (rd (v_y (s2\<lparr>v_res := x1\<rparr>)) 0) (\<lambda>y0. err_bind (rd (v_y (s2\<lparr>v_res := x1\<rparr>)) 1) (\<lambda>y1.
                    Inr (s2\<lparr>v_res := x1\<rparr>\<lparr>v_phi_current := get_phi y0 y1 (v_phi_last (s2\<lparr>v_res := x1\<rparr>))\<rparr>))))
         = Inr (s3\<lparr>v_res := x1\<rparr>)"
    by simp
  from vpar_loop_forget [OF c5, of b x1] obtain x5 where
    B5: "vpar_loop L ?c' (axis r) tlast tcurrent 0 (arg_vpars ?c') (s3\<lparr>v_res := x1\<rparr>\<lparr>v_dt := tcurrent - tlast\<rparr>)
           = Inr (s5\<lparr>v_res := x5\<rparr>)"
    by (auto simp: res_out)
  from phi_loop_forget [OF c6, of b x5] obtain x6 where
    B6: "phi_loop L ?c' (axis r) tlast tcurrent 0 (arg_phis ?c') (s5\<lparr>v_res := x5\<rparr>) = Inr (s6\<lparr>v_res := x6\<rparr>)"
    by auto
  from stopping_loop_forget [OF c7, of b x6] obtain x7 where
    B7: "stopping_loop ?c' (axis r) 0 (arg_stopping_criteria ?c') (s6\<lparr>v_res := x6\<rparr>) = Inr (s7\<lparr>v_res := x7\<rparr>)"
    by auto
  have "solve_step L r ?c' (s\<lparr>v_res := x\<rparr>) = Inr (s'\<lparr>v_res := x7\<rparr>)"
  proof -
    have vd: "v_dense (s\<lparr>v_res := x1\<rparr>) = v_dense s" by simp
    have fin: "s7\<lparr>v_res := x7\<rparr>\<lparr>v_t_last := v_t_current (s7\<lparr>v_res := x7\<rparr>),
                 v_phi_last := v_phi_current (s7\<lparr>v_res := x7\<rparr>),
                 v_vpar_last := v_vpar_current (s7\<lparr>v_res := x7\<rparr>)\<rparr> = s'\<lparr>v_res := x7\<rparr>"
      by (simp add: c8 res_out)
    show ?thesis
      unfolding solve_step_def B1 err_bind_simps
      by (simp only: vd st prod.case Let_def s2b B3 B5 B6 B7 err_bind_simps fin)
  qed
  then show ?thesis by blast
qed

lemma solve_loop_forget:
  assumes "solve_loop fuel L r c s = Some (Inr s')" and "\<not> arg_forget_exact_path c"
  shows "\<exists>x'. solve_loop fuel L r (c\<lparr>arg_forget_exact_path := b\<rparr>) (s\<lparr>v_res := x\<rparr>)
              = Some (Inr (s'\<lparr>v_res := x'\<rparr>))"
  using assms(1)
proof (induction fuel arbitrary: s x)
  case 0
  then show ?case by simp
next
  case (Suc fuel)
  from Suc.prems obtain s1 where step: "solve_step L r c s = Inr s1"
    by (auto split: sum.splits)
  from solve_step_forget [OF step assms(2), of b x] obtain x1 where
    step': "solve_step L r (c\<lparr>arg_forget_exact_path := b\<rparr>) (s\<lparr>v_res := x\<rparr>) = Inr (s1\<lparr>v_res := x1\<rparr>)"
    by blast
  show ?case
  proof (cases "v_t s1 < arg_tmax c \<and> \<not> v_stop s1")
    case True
    with Suc.prems step have "solve_loop fuel L r c s1 = Some (Inr s')" by simp
    from Suc.IH [OF this, of x1] True step' show ?thesis by simp
  next
    case False
    with Suc.prems step have "s' = s1" by auto
    with False step' show ?thesis by auto
  qed
qed

lemma events_do_not_depend_on_forget_exact_path:
  assumes "solve L jk fuel r y tmax dt dtmax abstol reltol phis omegas stopping_criteria vpars
             phis_stop vpars_stop fl False = Some (Inr (traj, events))"
  shows "\<exists>traj'. solve L jk fuel r y tmax dt dtmax abstol reltol phis omegas stopping_criteria vpars
             phis_stop vpars_stop fl True = Some (Inr (traj', events))"
proof -
  define c where "c = \<lparr>arg_tmax = tmax, arg_abstol = abstol, arg_phis = phis, arg_omegas = omegas,
               arg_stopping_criteria = stopping_criteria, arg_vpars = vpars,
               arg_phis_stop = phis_stop, arg_vpars_stop = vpars_stop, arg_flux = fl,
               arg_forget_exact_path = False\<rparr>"
  have c': "\<lparr>arg_tmax = tmax, arg_abstol = abstol, arg_phis = phis, arg_omegas = omegas,
               arg_stopping_criteria = stopping_criteria, arg_vpars = vpars,
               arg_phis_stop = phis_stop, arg_vpars_stop = vpars_stop, arg_flux = fl,
               arg_forget_exact_path = True\<rparr> = c\<lparr>arg_forget_exact_path := True\<rparr>"
    by (simp add: c_def)
  from assms obtain s0 s where
    i: "solve_init L jk y dt dtmax abstol reltol fl = Inr s0"
    and l: "solve_loop fuel L r c s0 = Some (Inr s)"
    and f: "solve_finish L r tmax s = Inr (traj, events)"
    unfolding solve_def Let_def c_def [symmetric]
    by (auto split: sum.splits option.splits)
  have nf: "\<not> arg_forget_exact_path c" by (simp add: c_def)
  from solve_loop_forget [OF l nf, of True "v_res s0"] obtain x' where
    l': "solve_loop fuel L r (c\<lparr>arg_forget_exact_path := True\<rparr>) s0 = Some (Inr (s\<lparr>v_res := x'\<rparr>))"
    by auto
  from f obtain traj' where "solve_finish L r tmax (s\<lparr>v_res := x'\<rparr>) = Inr (traj', events)"
    by (auto simp: solve_finish_def err_bind_Inr split: if_splits)
  then show ?thesis
    unfolding solve_def [of _ _ _ _ _ _ _ _ _ _ _ _ _ _ _ _ _ True] Let_def c' by (simp add: i l')
qed

text \<open>
  Claim C6 does not hold of the code, by the same defect: with \<^verbatim>\<open>forget_exact_path\<close> set,
  the run of claim C1 returns three samples, the initial one, the one of the crossing and
  the one of the stopping criterion.
\<close>

theorem forget_exact_path_three_samples:
  "solve demo_lib (junk 0) 3 demo_rhs [1 / 2, 0, 0, 1 / 2] 10 1 1 (1 / 100) (1 / 100)
      [] [] [Some (zeta_above (3 / 4))] [0] False True True True
   = Some (Inr ([[0, 1 / 2, 0, 0, 1 / 2], [1 / 2, 1 / 2, 0, 1 / 2, 0], [1, 1 / 2, 0, 1, - (1 / 2)]],
                [[1 / 2, 0, 1 / 2, 0, 1 / 2, 0], [1, - 1, 1 / 2, 0, 1, - (1 / 2)]]))
   \<and> length [[0, 1 / 2, 0, 0, 1 / 2], [1 / 2, 1 / 2, 0, 1 / 2, 0], [1, 1 / 2, 0, 1, - (1 / 2) :: real]] = 3"
  by (simp add: demo_run_simps zeta_above_def numeral_3_eq_3)

subsection \<open>The uninitialised \<^verbatim>\<open>t_current\<close>\<close>

lemma shifted_1_m1: "shifted_atan2 1 (- 1) = 7 * pi / 4"
  using pi_gt_zero by (simp add: shifted_atan2_def atan2_def arctan_minus arctan_one Let_def)

lemma shifted_1_0: "shifted_atan2 1 0 = 0"
  by (simp add: shifted_atan2_def atan2_def)

lemma shifted_1_1: "shifted_atan2 1 1 = pi / 4"
  using pi_gt_zero by (simp add: shifted_atan2_def atan2_def arctan_one Let_def)

lemma c_round_half: "c_round (1 / 2) = 1"
  by (simp add: c_round_def)

lemma c_round_7_8: "c_round (7 / 8) = 1"
  unfolding c_round_def by simp

lemma c_round_15_16: "c_round (15 / 16) = 1"
  unfolding c_round_def by simp

lemma get_phi_1: "get_phi 1 (- 1) pi = 7 * pi / 4"
proof -
  have "pi / (2 * pi) = 1 / 2" by simp
  then show ?thesis
    using pi_gt_zero
    by (simp add: get_phi_def shifted_1_m1 c_round_half Let_def min_def abs_if)
qed

lemma get_phi_2: "get_phi 1 0 (7 * pi / 4) = 2 * pi"
proof -
  have "7 * pi / 4 / (2 * pi) = 7 / 8" by simp
  then show ?thesis
    using pi_gt_zero
    by (simp add: get_phi_def shifted_1_0 c_round_7_8 Let_def min_def abs_if)
qed

lemma get_phi_3: "get_phi 1 1 (2 * pi) = 9 * pi / 4"
proof -
  have "2 * pi / (2 * pi) = 1" by simp
  moreover have "c_round 1 = 1" by (simp add: c_round_def)
  ultimately show ?thesis
    using pi_gt_zero
    by (simp add: get_phi_def shifted_1_1 Let_def min_def abs_if)
qed

text \<open>
  The part of claim C4 that holds: in flux coordinates the three locals are assigned in
  every pass before they are read, and the result does not depend on their first contents.
\<close>

lemma solve_step_flux_ignores_currents:
  assumes "arg_flux c"
  shows "solve_step L r c (s\<lparr>v_phi_current := a1, v_vpar_current := a2, v_t_current := a3\<rparr>)
           = solve_step L r c s"
  using assms unfolding solve_step_def
  by (auto simp: err_bind_def Let_def split: sum.splits prod.splits)

lemma flux_trace_ignores_indeterminate_locals:
  "solve L jk fuel r y tmax dt dtmax abstol reltol phis omegas stopping_criteria vpars
      phis_stop vpars_stop True fg
   = solve L jk' fuel r y tmax dt dtmax abstol reltol phis omegas stopping_criteria vpars
      phis_stop vpars_stop True fg"
proof -
  define c where "c = \<lparr>arg_tmax = tmax, arg_abstol = abstol, arg_phis = phis, arg_omegas = omegas,
               arg_stopping_criteria = stopping_criteria, arg_vpars = vpars,
               arg_phis_stop = phis_stop, arg_vpars_stop = vpars_stop, arg_flux = True,
               arg_forget_exact_path = fg\<rparr>"
  have fl: "arg_flux c" by (simp add: c_def)
  show ?thesis
  proof (cases "solve_init L jk y dt dtmax abstol reltol True")
    case (Inl e)
    then have "solve_init L jk' y dt dtmax abstol reltol True = Inl e"
      by (auto simp: solve_init_def Let_def err_bind_def split: sum.splits)
    with Inl show ?thesis by (simp add: solve_def)
  next
    case (Inr s0)
    then have i': "solve_init L jk' y dt dtmax abstol reltol True
        = Inr (s0\<lparr>v_phi_current := ind_phi_current jk', v_vpar_current := ind_vpar_current jk',
                  v_t_current := ind_t_current jk'\<rparr>)"
      by (auto simp: solve_init_def Let_def err_bind_def split: sum.splits)
    have "solve_loop fuel L r c (s0\<lparr>v_phi_current := ind_phi_current jk',
              v_vpar_current := ind_vpar_current jk', v_t_current := ind_t_current jk'\<rparr>)
          = solve_loop fuel L r c s0"
      by (cases fuel) (simp_all add: solve_step_flux_ignores_currents [OF fl])
    then show ?thesis
      unfolding solve_def Let_def c_def [symmetric] Inr i' by simp
  qed
qed

text \<open>
  Claim C4 does not hold of the code. In a trace that is not in flux coordinates
  \<^verbatim>\<open>t_current\<close> is never assigned, and \<^verbatim>\<open>t_last = t_current\<close> copies the indeterminate value
  at the end of the first pass; from then on \<^verbatim>\<open>t_last != 0\<close> decides whether \<open>\<Phi>\<close>-plane
  crossings are looked for. The same field-line trace returns no event when the
  indeterminate value is 0 and one event when it is 1.
\<close>

theorem events_depend_on_uninitialised_t_current:
  "fieldline_tracing demo_lib (junk 0) 5 demo_field (1, - 1, 0) 2 (1 / 100) (1 / 100) [pi / 4] []
     = Some (Inr ([[0, 1, - 1, 0], [1, 1, 0, 0], [2, 1, 1, 0]], []))
   \<and> fieldline_tracing demo_lib (junk 1) 5 demo_field (1, - 1, 0) 2 (1 / 100) (1 / 100) [pi / 4] []
     = Some (Inr ([[0, 1, - 1, 0], [1, 1, 0, 0], [2, 1, 1, 0]], [[2, 0, 1, 1, 0]]))"
  by (simp add: demo_fieldline_simps eval_nat_numeral get_phi_1 get_phi_2 get_phi_3 c_round_15_16)

end
